theory Spec2Isabelle
  imports Complex_Main "HOL-Library.Sublist"
begin

section \<open>Data model of \<^verbatim>\<open>src/App.tsx\<close>\<close>

text \<open>
  JavaScript numbers are modelled as \<^typ>\<open>real\<close> (coordinates, speeds, radii) and as
  \<^typ>\<open>int\<close> where the program only ever holds whole numbers (ammo, score).  The model
  therefore has no NaN and no infinities, and no rounding.

  The interfaces \<^verbatim>\<open>Point\<close>, \<^verbatim>\<open>Rocket\<close>, \<^verbatim>\<open>Missile\<close>, \<^verbatim>\<open>Explosion\<close>, \<^verbatim>\<open>Battery\<close> and
  \<^verbatim>\<open>City\<close> become records extending \<open>point\<close>.  The fields \<^verbatim>\<open>id\<close> and \<^verbatim>\<open>color\<close> hold random
  strings that neither \<^verbatim>\<open>update\<close> nor \<^verbatim>\<open>handleCanvasClick\<close> ever reads; they are left out.
  \<^verbatim>\<open>Battery\<close> is written as an extension of \<^verbatim>\<open>City\<close> because both carry \<^verbatim>\<open>destroyed\<close>.
\<close>

definition CANVAS_WIDTH :: real where "CANVAS_WIDTH = 800"
definition CANVAS_HEIGHT :: real where "CANVAS_HEIGHT = 600"
definition ROCKET_SPEED_MIN :: real where "ROCKET_SPEED_MIN = 0.25"
definition ROCKET_SPEED_MAX :: real where "ROCKET_SPEED_MAX = 0.75"
definition MISSILE_SPEED :: real where "MISSILE_SPEED = 7"
definition EXPLOSION_RADIUS_MAX :: real where "EXPLOSION_RADIUS_MAX = 40"
definition EXPLOSION_GROWTH_RATE :: real where "EXPLOSION_GROWTH_RATE = 1.5"
definition SCORE_PER_ROCKET :: int where "SCORE_PER_ROCKET = 20"
definition WIN_SCORE :: int where "WIN_SCORE = 1000"

record point =
  x :: real
  y :: real

record rocket = point +
  targetX :: real
  targetY :: real
  speed :: real

record missile = point +
  destX :: real
  destY :: real
  startX :: real
  startY :: real

record explosion = point +
  radius :: real
  growing :: bool

record city = point +
  destroyed :: bool

record battery = city +
  ammo :: int
  maxAmmo :: int

text \<open>The React state \<^verbatim>\<open>gameState\<close> and the \<^verbatim>\<open>ammo\<close> snapshot shown by the UI.\<close>

datatype phase = Menu | Playing | Won | Lost

record ammoSnapshot =
  left :: int
  center :: int
  right :: int

text \<open>
  The component's state: the two pieces of React state the game logic reads and writes
  (\<^verbatim>\<open>gameState\<close>, \<^verbatim>\<open>score\<close>), the \<^verbatim>\<open>ammo\<close> snapshot (here \<open>ammoState\<close>, since the
  batteries have a field \<^verbatim>\<open>ammo\<close>), and the five entity stores held in refs.
\<close>

record game =
  gameState :: phase
  score :: int
  ammoState :: ammoSnapshot
  rockets :: "rocket list"
  missiles :: "missile list"
  explosions :: "explosion list"
  batteries :: "battery list"
  cities :: "city list"

text \<open>
  The values \<^verbatim>\<open>Math.random()\<close> returns during one call of \<^verbatim>\<open>update\<close>, as far as they
  decide anything: the spawn roll, and inside \<^verbatim>\<open>spawnRocket\<close> the target, start and speed
  rolls.  \<^verbatim>\<open>Math.random()\<close> returns a number in \<open>[0, 1)\<close>.
\<close>

record rand =
  spawnRoll :: real
  targetRoll :: real
  startXRoll :: real
  speedRoll :: real

text \<open>Reading a property of \<^verbatim>\<open>undefined\<close> throws a \<^verbatim>\<open>TypeError\<close>.\<close>

datatype error = TypeError

text \<open>The outcome of a motion step: the entity has arrived, or it has moved.\<close>

datatype 'a motion = Arrived | Moved 'a

section \<open>Arrays\<close>

text \<open>\<^verbatim>\<open>arr.splice(index, 1)\<close>: remove the element at \<open>index\<close>.\<close>

definition splice1 :: "nat \<Rightarrow> 'a list \<Rightarrow> 'a list" where
  "splice1 index xs = take index xs @ drop (Suc index) xs"

text \<open>
  \<^verbatim>\<open>Array.prototype.forEach\<close> on an array that the callback may shrink.  The length is
  read once, before the first call; the index \<open>k\<close> then runs from 0 to that length, and the
  callback is called with \<open>k\<close> only if the array still has an element at \<open>k\<close>.  The first
  argument reads the array's current length from the state, the second is the callback
  (given the index, it reads the element from the state), \<open>n\<close> counts the indices still to
  visit.
\<close>

fun forEachFrom :: "('s \<Rightarrow> nat) \<Rightarrow> (nat \<Rightarrow> 's \<Rightarrow> 's) \<Rightarrow> nat \<Rightarrow> nat \<Rightarrow> 's \<Rightarrow> 's" where
  "forEachFrom len body 0 k s = s"
| "forEachFrom len body (Suc n) k s =
     forEachFrom len body n (Suc k) (if k < len s then body k s else s)"

definition forEach :: "('s \<Rightarrow> nat) \<Rightarrow> (nat \<Rightarrow> 's \<Rightarrow> 's) \<Rightarrow> 's \<Rightarrow> 's" where
  "forEach len body s = forEachFrom len body (len s) 0 s"

section \<open>The initial configuration and \<^verbatim>\<open>startGame\<close>\<close>

definition initialBatteries :: "battery list" where
  "initialBatteries =
     [\<lparr>x = 50, y = CANVAS_HEIGHT - 20, destroyed = False, ammo = 20, maxAmmo = 20\<rparr>,
      \<lparr>x = CANVAS_WIDTH / 2, y = CANVAS_HEIGHT - 20, destroyed = False, ammo = 40, maxAmmo = 40\<rparr>,
      \<lparr>x = CANVAS_WIDTH - 50, y = CANVAS_HEIGHT - 20, destroyed = False, ammo = 20, maxAmmo = 20\<rparr>]"

definition initialCities :: "city list" where
  "initialCities =
     [\<lparr>x = 150, y = CANVAS_HEIGHT - 15, destroyed = False\<rparr>,
      \<lparr>x = 250, y = CANVAS_HEIGHT - 15, destroyed = False\<rparr>,
      \<lparr>x = 350, y = CANVAS_HEIGHT - 15, destroyed = False\<rparr>,
      \<lparr>x = 450, y = CANVAS_HEIGHT - 15, destroyed = False\<rparr>,
      \<lparr>x = 550, y = CANVAS_HEIGHT - 15, destroyed = False\<rparr>,
      \<lparr>x = 650, y = CANVAS_HEIGHT - 15, destroyed = False\<rparr>]"

text \<open>The state of the component when it is mounted.\<close>

definition initialGame :: game where
  "initialGame =
     \<lparr>gameState = Menu, score = 0, ammoState = \<lparr>left = 20, center = 40, right = 20\<rparr>,
      rockets = [], missiles = [], explosions = [],
      batteries = initialBatteries, cities = initialCities\<rparr>"

definition startGame :: "game \<Rightarrow> game" where
  "startGame s =
     s\<lparr>score := 0, gameState := Playing, rockets := [], missiles := [], explosions := [],
       batteries := initialBatteries, cities := initialCities\<rparr>"

section \<open>\<^verbatim>\<open>handleCanvasClick\<close>\<close>

text \<open>
  The scan for the nearest battery with ammo.  \<^verbatim>\<open>minDist\<close> and \<^verbatim>\<open>nearestBattery\<close> are
  assigned together, so the pair is one optional value: \<open>None\<close> is the initial
  \<^verbatim>\<open>(Infinity, null)\<close>, below which every distance lies.  \<^verbatim>\<open>nearestBattery\<close> is a reference
  into the store, kept here as the battery's index.
\<close>

definition nearestBatteryStep :: "real \<Rightarrow> (real \<times> nat) option \<Rightarrow> nat \<times> battery \<Rightarrow> (real \<times> nat) option" where
  "nearestBatteryStep tx acc ib =
     (let b = snd ib in
      if \<not> destroyed b \<and> ammo b > 0 then
        (let d = \<bar>x b - tx\<bar> in
         case acc of
           None \<Rightarrow> Some (d, fst ib)
         | Some (minDist, j) \<Rightarrow> if d < minDist then Some (d, fst ib) else acc)
      else acc)"

definition nearestBattery :: "real \<Rightarrow> battery list \<Rightarrow> (real \<times> nat) option" where
  "nearestBattery tx bs = foldl (nearestBatteryStep tx) None (enumerate 0 bs)"

text \<open>
  \<open>tx\<close> and \<open>ty\<close> are the click's canvas coordinates, after the scaling by the canvas
  rectangle, which belongs to the browser.
\<close>

definition handleCanvasClick :: "real \<Rightarrow> real \<Rightarrow> game \<Rightarrow> game" where
  "handleCanvasClick tx ty s =
     (if gameState s \<noteq> Playing then s
      else case nearestBattery tx (batteries s) of
        None \<Rightarrow> s
      | Some (minDist, i) \<Rightarrow>
          (let b = batteries s ! i in
           s\<lparr>batteries := (batteries s)[i := b\<lparr>ammo := ammo b - 1\<rparr>],
             missiles := missiles s @
               [\<lparr>x = x b, y = y b, destX = tx, destY = ty, startX = x b, startY = y b\<rparr>]\<rparr>))"

section \<open>\<^verbatim>\<open>spawnRocket\<close>\<close>

definition spawnRocket :: "rand \<Rightarrow> game \<Rightarrow> error + game" where
  "spawnRocket rnd s =
     (let targets = map point.truncate (filter (\<lambda>b. \<not> destroyed b) (batteries s)) @
                    map point.truncate (filter (\<lambda>c. \<not> destroyed c) (cities s))
      in if length targets = 0 then Inr s
         else
           (let i = \<lfloor>targetRoll rnd * real (length targets)\<rfloor> in
            if i < 0 \<or> int (length targets) \<le> i then Inl TypeError
            else
              (let target = targets ! nat i; startX = startXRoll rnd * CANVAS_WIDTH in
               Inr (s\<lparr>rockets := rockets s @
                 [\<lparr>x = startX, y = 0, targetX = x target, targetY = y target,
                   speed = ROCKET_SPEED_MIN + speedRoll rnd * (ROCKET_SPEED_MAX - ROCKET_SPEED_MIN)\<rparr>]\<rparr>))))"

section \<open>\<^verbatim>\<open>update\<close>\<close>

subsection \<open>1. Update Rockets\<close>

definition rocketDistance :: "rocket \<Rightarrow> real" where
  "rocketDistance r =
     (let dx = targetX r - x r; dy = targetY r - y r in sqrt (dx * dx + dy * dy))"

definition rocketMotion :: "rocket \<Rightarrow> rocket motion" where
  "rocketMotion r =
     (let dx = targetX r - x r; dy = targetY r - y r; distance = sqrt (dx * dx + dy * dy) in
      if distance < 2 then Arrived
      else Moved (r\<lparr>x := x r + (dx / distance) * speed r,
                    y := y r + (dy / distance) * speed r\<rparr>))"

definition wasHit :: "rocket \<Rightarrow> 'a point_scheme \<Rightarrow> bool" where
  "wasHit r b = (\<bar>x b - targetX r\<bar> < 5 \<and> \<bar>y b - targetY r\<bar> < 5)"

definition rocketBody :: "nat \<Rightarrow> game \<Rightarrow> game" where
  "rocketBody index s =
     (let r = rockets s ! index in
      case rocketMotion r of
        Arrived \<Rightarrow>
          s\<lparr>explosions := explosions s @ [\<lparr>x = x r, y = y r, radius = 2, growing = True\<rparr>],
            batteries := map (\<lambda>b. if wasHit r b then b\<lparr>destroyed := True, ammo := 0\<rparr> else b)
                             (batteries s),
            cities := map (\<lambda>c. if wasHit r c then c\<lparr>destroyed := True\<rparr> else c) (cities s),
            rockets := splice1 index (rockets s)\<rparr>
      | Moved r' \<Rightarrow> s\<lparr>rockets := (rockets s)[index := r']\<rparr>)"

definition updateRockets :: "game \<Rightarrow> game" where
  "updateRockets s = forEach (\<lambda>s. length (rockets s)) rocketBody s"

subsection \<open>2. Update Missiles\<close>

definition nearestRocketStep :: "missile \<Rightarrow> real \<times> rocket option \<Rightarrow> rocket \<Rightarrow> real \<times> rocket option" where
  "nearestRocketStep m acc r =
     (let d = sqrt ((x r - x m)\<^sup>2 + (y r - y m)\<^sup>2) in
      if d < fst acc then (d, Some r) else acc)"

definition nearestRocket :: "missile \<Rightarrow> rocket list \<Rightarrow> real \<times> rocket option" where
  "nearestRocket m rs = foldl (nearestRocketStep m) (300, None) rs"

definition reaim :: "rocket list \<Rightarrow> missile \<Rightarrow> missile" where
  "reaim rs m =
     (case snd (nearestRocket m rs) of
        Some r \<Rightarrow> m\<lparr>destX := x r, destY := y r\<rparr>
      | None \<Rightarrow> m)"

definition missileDistance :: "missile \<Rightarrow> real" where
  "missileDistance m =
     (let dx = destX m - x m; dy = destY m - y m in sqrt (dx * dx + dy * dy))"

definition missileMotion :: "missile \<Rightarrow> missile motion" where
  "missileMotion m =
     (let dx = destX m - x m; dy = destY m - y m; distance = sqrt (dx * dx + dy * dy) in
      if distance < MISSILE_SPEED then Arrived
      else Moved (m\<lparr>x := x m + (dx / distance) * MISSILE_SPEED,
                    y := y m + (dy / distance) * MISSILE_SPEED\<rparr>))"

definition missileBody :: "nat \<Rightarrow> game \<Rightarrow> game" where
  "missileBody index s =
     (let m = reaim (rockets s) (missiles s ! index) in
      case missileMotion m of
        Arrived \<Rightarrow>
          s\<lparr>explosions := explosions s @ [\<lparr>x = destX m, y = destY m, radius = 2, growing = True\<rparr>],
            missiles := splice1 index (missiles s)\<rparr>
      | Moved m' \<Rightarrow> s\<lparr>missiles := (missiles s)[index := m']\<rparr>)"

definition updateMissiles :: "game \<Rightarrow> game" where
  "updateMissiles s = forEach (\<lambda>s. length (missiles s)) missileBody s"

subsection \<open>3. Update Explosions\<close>

text \<open>
  The radius update of one explosion; the flag says whether the explosion is spliced out
  of the store.
\<close>

definition explosionLifecycle :: "explosion \<Rightarrow> explosion \<times> bool" where
  "explosionLifecycle e =
     (if growing e then
        (let e1 = e\<lparr>radius := radius e + EXPLOSION_GROWTH_RATE\<rparr> in
         (if radius e1 \<ge> EXPLOSION_RADIUS_MAX then e1\<lparr>growing := False\<rparr> else e1, False))
      else
        (let e1 = e\<lparr>radius := radius e - EXPLOSION_GROWTH_RATE\<rparr> in
         (e1, radius e1 \<le> 0)))"

text \<open>
  The collision check of one explosion \<open>e\<close> against the rocket at \<open>rIdx\<close>.
  \<^verbatim>\<open>setScore(prev => prev + SCORE_PER_ROCKET)\<close> is a functional update: the queued updates
  add up, so the \<open>score\<close> field is the value React holds once the tick's updates are applied.
\<close>

definition collisionBody :: "explosion \<Rightarrow> nat \<Rightarrow> game \<Rightarrow> game" where
  "collisionBody e rIdx s =
     (let r = rockets s ! rIdx; dx = x r - x e; dy = y r - y e; dist = sqrt (dx * dx + dy * dy) in
      if dist < radius e then
        s\<lparr>rockets := splice1 rIdx (rockets s), score := score s + SCORE_PER_ROCKET\<rparr>
      else s)"

definition explosionBody :: "nat \<Rightarrow> game \<Rightarrow> game" where
  "explosionBody index s =
     (let (e, removed) = explosionLifecycle (explosions s ! index);
          s1 = s\<lparr>explosions := (if removed then splice1 index (explosions s)
                                 else (explosions s)[index := e])\<rparr>
      in forEach (\<lambda>s. length (rockets s)) (collisionBody e) s1)"

definition updateExplosions :: "game \<Rightarrow> game" where
  "updateExplosions s = forEach (\<lambda>s. length (explosions s)) explosionBody s"

subsection \<open>4. Spawn Rockets, 5. Check Win/Loss, and the ammo snapshot\<close>

text \<open>
  \<open>sc\<close> is the \<^verbatim>\<open>score\<close> the callback closed over: \<^verbatim>\<open>update\<close> is rebuilt by \<^verbatim>\<open>useCallback\<close>
  whenever \<^verbatim>\<open>score\<close> changes, so during a tick it is the score React held when the tick
  began, whatever \<^verbatim>\<open>setScore\<close> has queued since.
\<close>

definition spawnStep :: "rand \<Rightarrow> int \<Rightarrow> game \<Rightarrow> error + game" where
  "spawnStep rnd sc s =
     (if spawnRoll rnd < 0.015 + real_of_int sc / 10000 then spawnRocket rnd s else Inr s)"

definition winCheck :: "int \<Rightarrow> game \<Rightarrow> game" where
  "winCheck sc s = (if sc \<ge> WIN_SCORE then s\<lparr>gameState := Won\<rparr> else s)"

definition lossCheck :: "game \<Rightarrow> game" where
  "lossCheck s = (if list_all destroyed (batteries s) then s\<lparr>gameState := Lost\<rparr> else s)"

definition setAmmo :: "game \<Rightarrow> error + game" where
  "setAmmo s =
     (case batteries s of
        b0 # b1 # b2 # rest \<Rightarrow>
          Inr (s\<lparr>ammoState := \<lparr>left = ammo b0, center = ammo b1, right = ammo b2\<rparr>\<rparr>)
      | _ \<Rightarrow> Inl TypeError)"

text \<open>
  One call of \<^verbatim>\<open>update\<close>.  \<^verbatim>\<open>setGameState\<close> is called with plain values, so of two calls in
  one tick the later one stands.  The \<^verbatim>\<open>confetti\<close> call draws on the page and changes
  nothing here.
\<close>

definition update :: "rand \<Rightarrow> game \<Rightarrow> error + game" where
  "update rnd s =
     (if gameState s \<noteq> Playing then Inr s
      else
        case spawnStep rnd (score s) (updateExplosions (updateMissiles (updateRockets s))) of
          Inl e \<Rightarrow> Inl e
        | Inr s4 \<Rightarrow> setAmmo (lossCheck (winCheck (score s) s4)))"

section \<open>Notions used to state the properties\<close>

text \<open>
  A rocket \<open>r'\<close> after a step is matched with a rocket \<open>r\<close> before it: same fixed target,
  same speed, and no farther from the target.
\<close>

definition tracks :: "rocket \<Rightarrow> rocket \<Rightarrow> bool" where
  "tracks r' r =
     (targetX r' = targetX r \<and> targetY r' = targetY r \<and> speed r' = speed r \<and>
      rocketDistance r' \<le> rocketDistance r)"

text \<open>The speed range \<^verbatim>\<open>spawnRocket\<close> draws from.\<close>

definition speedOk :: "rocket \<Rightarrow> bool" where
  "speedOk r = (ROCKET_SPEED_MIN \<le> speed r \<and> speed r \<le> ROCKET_SPEED_MAX)"

text \<open>
  The rockets of \<open>t\<close> are, in store order, rockets of \<open>rs0\<close> that have come no farther from
  their targets: some were removed, none was added or reordered.
\<close>

definition sameRockets :: "rocket list \<Rightarrow> game \<Rightarrow> bool" where
  "sameRockets rs0 t = (\<exists>before. subseq before rs0 \<and> list_all2 tracks (rockets t) before)"

text \<open>A battery can fire when it is not destroyed and has ammo left.\<close>

definition canFire :: "battery \<Rightarrow> bool" where
  "canFire b = (\<not> destroyed b \<and> 0 < ammo b)"

text \<open>
  The battery at index \<open>i\<close> is the one a click at horizontal position \<open>tx\<close> selects: it can
  fire, no battery that can fire is horizontally nearer to \<open>tx\<close>, and every battery before it
  in the store that can fire is strictly farther.
\<close>

definition chosen :: "real \<Rightarrow> battery list \<Rightarrow> nat \<Rightarrow> bool" where
  "chosen tx bs i =
     (i < length bs \<and> canFire (bs ! i) \<and>
      (\<forall>j<length bs. canFire (bs ! j) \<longrightarrow> \<bar>x (bs ! i) - tx\<bar> \<le> \<bar>x (bs ! j) - tx\<bar>) \<and>
      (\<forall>j<i. canFire (bs ! j) \<longrightarrow> \<bar>x (bs ! i) - tx\<bar> < \<bar>x (bs ! j) - tx\<bar>))"

text \<open>
  Firing from the battery at index \<open>i\<close>: its ammo goes down by one, and one missile is
  appended that starts at the battery's position and is aimed at the click.
\<close>

definition launch :: "real \<Rightarrow> real \<Rightarrow> nat \<Rightarrow> game \<Rightarrow> game" where
  "launch tx ty i s =
     s\<lparr>batteries := (batteries s)[i := (batteries s ! i)\<lparr>ammo := ammo (batteries s ! i) - 1\<rparr>],
       missiles := missiles s @
         [\<lparr>x = x (batteries s ! i), y = y (batteries s ! i), destX = tx, destY = ty,
           startX = x (batteries s ! i), startY = y (batteries s ! i)\<rparr>]\<rparr>"

text \<open>The distance the heat-seeking scan computes between a missile and a rocket.\<close>

definition seekDistance :: "missile \<Rightarrow> rocket \<Rightarrow> real" where
  "seekDistance m r = sqrt ((x r - x m)\<^sup>2 + (y r - y m)\<^sup>2)"

text \<open>
  The rocket at index \<open>i\<close> is the one the scan of missile \<open>m\<close> settles on: it is closer than
  300, no rocket is closer, and every rocket before it in the store is strictly farther.
\<close>

definition nearestInRange :: "missile \<Rightarrow> rocket list \<Rightarrow> nat \<Rightarrow> bool" where
  "nearestInRange m rs i =
     (i < length rs \<and> seekDistance m (rs ! i) < 300 \<and>
      (\<forall>j<length rs. seekDistance m (rs ! i) \<le> seekDistance m (rs ! j)) \<and>
      (\<forall>j<i. seekDistance m (rs ! i) < seekDistance m (rs ! j)))"

text \<open>\<^verbatim>\<open>Math.random()\<close> returns a number from 0 up to, not including, 1.\<close>

definition validRolls :: "rand \<Rightarrow> bool" where
  "validRolls rnd =
     (0 \<le> spawnRoll rnd \<and> spawnRoll rnd < 1 \<and> 0 \<le> targetRoll rnd \<and> targetRoll rnd < 1 \<and>
      0 \<le> startXRoll rnd \<and> startXRoll rnd < 1 \<and> 0 \<le> speedRoll rnd \<and> speedRoll rnd < 1)"

text \<open>
  The states the component can be in: the state it is mounted with, and from there any
  sequence of \<^verbatim>\<open>startGame\<close>, clicks on the canvas and animation frames.
\<close>

inductive reachable :: "game \<Rightarrow> bool" where
  mounted: "reachable initialGame"
| started: "reachable s \<Longrightarrow> reachable (startGame s)"
| clicked: "reachable s \<Longrightarrow> reachable (handleCanvasClick tx ty s)"
| ticked: "reachable s \<Longrightarrow> validRolls rnd \<Longrightarrow> update rnd s = Inr s' \<Longrightarrow> reachable s'"

text \<open>
  The radii an explosion can have: from 2 upwards in steps of 1.5 while it grows, and from
  41 downwards in steps of 1.5 while it shrinks.
\<close>

definition explosionOk :: "explosion \<Rightarrow> bool" where
  "explosionOk e =
     (if growing e then (\<exists>k\<in>{0..25::nat}. radius e = 2 + 1.5 * real k)
      else (\<exists>k\<in>{0..27::nat}. radius e = 41 - 1.5 * real k))"

text \<open>
  The batteries and cities stand where the initial configuration puts them; their flags and
  ammo are free.
\<close>

definition position :: "'a point_scheme \<Rightarrow> real \<times> real" where
  "position p = (x p, y p)"

definition layout :: "game \<Rightarrow> bool" where
  "layout s =
     (map position (batteries s) = map position initialBatteries \<and>
      map position (cities s) = map position initialCities)"

text \<open>
  The impact on the structures, following the words of the specification: among the
  batteries and cities, the first one that matches the rocket's target is marked, a battery
  before any city.
\<close>

fun markFirst :: "('a \<Rightarrow> bool) \<Rightarrow> ('a \<Rightarrow> 'a) \<Rightarrow> 'a list \<Rightarrow> 'a list" where
  "markFirst hit mark [] = []"
| "markFirst hit mark (b # bs) = (if hit b then mark b # bs else b # markFirst hit mark bs)"

definition impactAsSpecified :: "rocket \<Rightarrow> battery list \<times> city list \<Rightarrow> battery list \<times> city list" where
  "impactAsSpecified r bc =
     (if list_ex (wasHit r) (fst bc)
      then (markFirst (wasHit r) (\<lambda>b. b\<lparr>destroyed := True, ammo := 0\<rparr>) (fst bc), snd bc)
      else (fst bc, markFirst (wasHit r) (\<lambda>c. c\<lparr>destroyed := True\<rparr>) (snd bc)))"

text \<open>The number of structures whose \<^verbatim>\<open>destroyed\<close> flag turns from false to true.\<close>

definition newlyDestroyed :: "'a city_scheme list \<Rightarrow> 'a city_scheme list \<Rightarrow> nat" where
  "newlyDestroyed before after =
     length (filter (\<lambda>p. \<not> destroyed (fst p) \<and> destroyed (snd p)) (zip before after))"

section \<open>Sample inputs\<close>

text \<open>Rolls under which no rocket is spawned while the score is below 9750.\<close>

definition quietRolls :: rand where
  "quietRolls = \<lparr>spawnRoll = 0.99, targetRoll = 0, startXRoll = 0, speedRoll = 0\<rparr>"

definition ruinedBatteries :: "battery list" where
  "ruinedBatteries = map (\<lambda>b. b\<lparr>destroyed := True, ammo := 0\<rparr>) initialBatteries"

text \<open>A round with every battery destroyed, once at score 1000 and once at score 0.\<close>

definition lastStand :: game where
  "lastStand = (startGame initialGame)\<lparr>score := 1000, batteries := ruinedBatteries\<rparr>"

definition batteriesDown :: game where
  "batteriesDown = (startGame initialGame)\<lparr>batteries := ruinedBatteries\<rparr>"

text \<open>A rocket 480 units above the left battery, and a round in which it is the only entity.\<close>

definition fallingRocket :: rocket where
  "fallingRocket = \<lparr>x = 50, y = 100, targetX = 50, targetY = 580, speed = 0.5\<rparr>"

definition landedRocket :: rocket where
  "landedRocket = \<lparr>x = 50, y = 580, targetX = 50, targetY = 580, speed = 0.5\<rparr>"

definition oneRocket :: game where
  "oneRocket = (startGame initialGame)\<lparr>rockets := [fallingRocket]\<rparr>"

text \<open>A missile 280 units below its destination, and one that sits on its destination.\<close>

definition climbingMissile :: missile where
  "climbingMissile = \<lparr>x = 400, y = 580, destX = 400, destY = 300, startX = 400, startY = 580\<rparr>"

definition arrivedMissile :: missile where
  "arrivedMissile = \<lparr>x = 400, y = 580, destX = 400, destY = 580, startX = 400, startY = 580\<rparr>"

text \<open>
  A round in which the centre battery has fired once at its own position: the missile on
  its launch pad, and the explosion it leaves behind, at radius \<open>r\<close>.
\<close>

definition armed :: game where
  "armed = (startGame initialGame)
     \<lparr>missiles := [arrivedMissile],
      batteries := initialBatteries[1 := (initialBatteries ! 1)\<lparr>ammo := 39\<rparr>]\<rparr>"

definition detonation :: "real \<Rightarrow> bool \<Rightarrow> game" where
  "detonation r g =
     (startGame initialGame)
       \<lparr>ammoState := \<lparr>left = 20, center = 39, right = 20\<rparr>,
        explosions := [\<lparr>x = 400, y = 580, radius = r, growing = g\<rparr>],
        batteries := initialBatteries[1 := (initialBatteries ! 1)\<lparr>ammo := 39\<rparr>]\<rparr>"

text \<open>
  Rolls that spawn a rocket right above the right battery, a round in which that rocket
  has come down to height \<open>h\<close>, and the round after two clicks, one on the left battery
  and one up and to the left of the right battery: the first missile sits on its
  destination, far from the rocket; the second has the rocket 279.5 units above it once the
  rocket has moved.  Then the same round one frame later.
\<close>

definition intruder :: rocket where
  "intruder = \<lparr>x = 750, y = 300, targetX = 750, targetY = 580, speed = 0.5\<rparr>"

definition spentMissile :: missile where
  "spentMissile = \<lparr>x = 50, y = 580, destX = 50, destY = 580, startX = 50, startY = 580\<rparr>"

definition spawnRolls :: rand where
  "spawnRolls = \<lparr>spawnRoll = 0, targetRoll = 0.25, startXRoll = 0.9375, speedRoll = 0.5\<rparr>"

definition descent :: "real \<Rightarrow> game" where
  "descent h = (startGame initialGame)\<lparr>rockets := [intruder\<lparr>y := h\<rparr>]\<rparr>"

definition seeker :: missile where
  "seeker = \<lparr>x = 750, y = 580, destX = 700, destY = 300, startX = 750, startY = 580\<rparr>"

definition volley :: game where
  "volley = (descent 300)
     \<lparr>missiles := [spentMissile, seeker],
      batteries := [(initialBatteries ! 0)\<lparr>ammo := 19\<rparr>, initialBatteries ! 1,
                    (initialBatteries ! 2)\<lparr>ammo := 19\<rparr>]\<rparr>"

definition volleyAfter :: game where
  "volleyAfter = volley
     \<lparr>ammoState := \<lparr>left = 19, center = 40, right = 19\<rparr>,
      rockets := [intruder\<lparr>y := 300.5\<rparr>], missiles := [seeker],
      explosions := [\<lparr>x = 50, y = 580, radius = 3.5, growing = True\<rparr>]\<rparr>"

text \<open>
  A run of fifty kills.  The centre battery fires at the top edge right above itself
  (\<open>launched\<close>); the missile climbs (\<open>flight h\<close>) and detonates at \<open>(400, 0)\<close>.  From then on
  every frame spawns a rocket at that very point, aimed at the centre battery, and the
  explosion removes it on the next frame: \<open>barrage sc r g\<close> is the round at score \<open>sc\<close>
  with the explosion at radius \<open>r\<close>.  \<open>cleared\<close> is the round after the fiftieth kill
  and \<open>triumph\<close> the round one frame later.
\<close>

definition barrageRolls :: rand where
  "barrageRolls = \<lparr>spawnRoll = 0, targetRoll = 0.125, startXRoll = 0.5, speedRoll = 0.5\<rparr>"

definition newcomer :: rocket where
  "newcomer = \<lparr>x = 400, y = 0, targetX = 400, targetY = 580, speed = 0.5\<rparr>"

definition launched :: game where
  "launched = (startGame initialGame)
     \<lparr>missiles := [\<lparr>x = 400, y = 580, destX = 400, destY = 0, startX = 400, startY = 580\<rparr>],
      batteries := initialBatteries[1 := (initialBatteries ! 1)\<lparr>ammo := 39\<rparr>]\<rparr>"

definition flight :: "real \<Rightarrow> game" where
  "flight h = (startGame initialGame)
     \<lparr>ammoState := \<lparr>left = 20, center = 39, right = 20\<rparr>,
      missiles := [\<lparr>x = 400, y = h, destX = 400, destY = 0, startX = 400, startY = 580\<rparr>],
      batteries := initialBatteries[1 := (initialBatteries ! 1)\<lparr>ammo := 39\<rparr>]\<rparr>"

definition barrage :: "int \<Rightarrow> real \<Rightarrow> bool \<Rightarrow> game" where
  "barrage sc r g = (startGame initialGame)
     \<lparr>score := sc, ammoState := \<lparr>left = 20, center = 39, right = 20\<rparr>,
      rockets := [newcomer],
      explosions := [\<lparr>x = 400, y = 0, radius = r, growing = g\<rparr>],
      batteries := initialBatteries[1 := (initialBatteries ! 1)\<lparr>ammo := 39\<rparr>]\<rparr>"

definition cleared :: game where
  "cleared = (barrage 1000 3.5 False)\<lparr>rockets := []\<rparr>"

definition triumph :: game where
  "triumph = (barrage 1000 2 False)\<lparr>gameState := Won, rockets := []\<rparr>"

text \<open>
  Two rockets that come within 2 of their targets on the same frame.  A slow rocket falls
  on the left battery (\<open>solo h\<close>); 1156 frames later a faster one is spawned above the
  centre battery (\<open>duo ha hb\<close>).  In \<open>twoLanded\<close> they are 1.75 and 1.5 away from their
  targets; \<open>oneLeftBehind\<close> is the round one frame later.
\<close>

definition slowRolls :: rand where
  "slowRolls = \<lparr>spawnRoll = 0, targetRoll = 0, startXRoll = 0.0625, speedRoll = 0\<rparr>"

definition slow :: "real \<Rightarrow> rocket" where
  "slow h = \<lparr>x = 50, y = h, targetX = 50, targetY = 580, speed = 0.25\<rparr>"

definition solo :: "real \<Rightarrow> game" where
  "solo h = (startGame initialGame)\<lparr>rockets := [slow h]\<rparr>"

definition duo :: "real \<Rightarrow> real \<Rightarrow> game" where
  "duo ha hb = (startGame initialGame)\<lparr>rockets := [slow ha, newcomer\<lparr>y := hb\<rparr>]\<rparr>"

definition twoLanded :: game where
  "twoLanded = duo 578.25 578.5"

definition oneLeftBehind :: game where
  "oneLeftBehind = (startGame initialGame)
     \<lparr>ammoState := \<lparr>left = 0, center = 40, right = 20\<rparr>,
      rockets := [newcomer\<lparr>y := 578.5\<rparr>],
      explosions := [\<lparr>x = 50, y = 578.25, radius = 3.5, growing = True\<rparr>],
      batteries := [(initialBatteries ! 0)\<lparr>destroyed := True, ammo := 0\<rparr>,
                    initialBatteries ! 1, initialBatteries ! 2]\<rparr>"

section \<open>Shared lemmas\<close>

lemmas constants =
  CANVAS_WIDTH_def CANVAS_HEIGHT_def ROCKET_SPEED_MIN_def ROCKET_SPEED_MAX_def
  MISSILE_SPEED_def EXPLOSION_RADIUS_MAX_def EXPLOSION_GROWTH_RATE_def
  SCORE_PER_ROCKET_def WIN_SCORE_def

lemmas run_defs = update_def updateRockets_def updateMissiles_def updateExplosions_def
  forEach_def spawnStep_def winCheck_def lossCheck_def setAmmo_def

lemma forEachFrom_invariant:
  assumes "P s" and "\<And>k t. P t \<Longrightarrow> k < len t \<Longrightarrow> P (body k t)"
  shows "P (forEachFrom len body n k s)"
  using assms(1)
  by (induction n arbitrary: k s) (auto intro: assms(2))

lemma forEach_invariant:
  assumes "P s" and "\<And>k t. P t \<Longrightarrow> k < len t \<Longrightarrow> P (body k t)"
  shows "P (forEach len body s)"
  unfolding forEach_def using assms by (rule forEachFrom_invariant)

lemma sqrt_less_iff: "0 < c \<Longrightarrow> sqrt a < c \<longleftrightarrow> a < c\<^sup>2"
  by (metis real_sqrt_less_iff real_sqrt_abs abs_of_pos)

lemma sqrt_less_numeral: "sqrt a < numeral n \<longleftrightarrow> a < (numeral n)\<^sup>2"
  by (rule sqrt_less_iff) simp

lemma sqrt_quarter: "sqrt (1 / 4) = 1 / 2"
  by (simp add: real_sqrt_divide)

lemma sqrt_times_less_numeral:
  "sqrt a * numeral k < numeral n \<longleftrightarrow> a * (numeral k)\<^sup>2 < (numeral n)\<^sup>2"
proof -
  have "sqrt ((numeral k)\<^sup>2) = (numeral k :: real)"
    by (simp only: real_sqrt_abs abs_numeral)
  then have "sqrt a * numeral k = sqrt (a * (numeral k)\<^sup>2)"
    by (simp only: real_sqrt_mult)
  then show ?thesis by (simp only: sqrt_less_numeral)
qed

text \<open>Frame lemmas\<close>

lemma rocketBody_frame:
  "gameState (rocketBody k s) = gameState s" "score (rocketBody k s) = score s"
  "missiles (rocketBody k s) = missiles s"
  by (simp_all add: rocketBody_def Let_def split: motion.splits)

lemma updateRockets_gameState: "gameState (updateRockets s) = gameState s"
  unfolding updateRockets_def
  by (rule forEach_invariant[where P="\<lambda>t. gameState t = gameState s"]) (simp_all add: rocketBody_frame)

lemma missileBody_frame:
  "gameState (missileBody k s) = gameState s" "score (missileBody k s) = score s"
  "rockets (missileBody k s) = rockets s" "batteries (missileBody k s) = batteries s"
  "cities (missileBody k s) = cities s"
  by (simp_all add: missileBody_def Let_def split: motion.splits)

lemma updateMissiles_gameState: "gameState (updateMissiles s) = gameState s"
  unfolding updateMissiles_def
  by (rule forEach_invariant[where P="\<lambda>t. gameState t = gameState s"]) (simp_all add: missileBody_frame)

lemma updateMissiles_batteries: "batteries (updateMissiles s) = batteries s"
  unfolding updateMissiles_def
  by (rule forEach_invariant[where P="\<lambda>t. batteries t = batteries s"]) (simp_all add: missileBody_frame)

lemma collisionBody_frame:
  "gameState (collisionBody e k s) = gameState s" "batteries (collisionBody e k s) = batteries s"
  "cities (collisionBody e k s) = cities s" "missiles (collisionBody e k s) = missiles s"
  "explosions (collisionBody e k s) = explosions s"
  by (simp_all add: collisionBody_def Let_def)

lemma explosionBody_gameState: "gameState (explosionBody k s) = gameState s"
  unfolding explosionBody_def Let_def
  by (auto split: prod.splits intro!: forEach_invariant[where P="\<lambda>t. gameState t = gameState s"] simp: collisionBody_frame)

lemma explosionBody_batteries: "batteries (explosionBody k s) = batteries s"
  unfolding explosionBody_def Let_def
  by (auto split: prod.splits intro!: forEach_invariant[where P="\<lambda>t. batteries t = batteries s"] simp: collisionBody_frame)

lemma updateExplosions_gameState: "gameState (updateExplosions s) = gameState s"
  unfolding updateExplosions_def
  by (rule forEach_invariant[where P="\<lambda>t. gameState t = gameState s"]) (simp_all add: explosionBody_gameState)

lemma updateExplosions_batteries: "batteries (updateExplosions s) = batteries s"
  unfolding updateExplosions_def
  by (rule forEach_invariant[where P="\<lambda>t. batteries t = batteries s"]) (simp_all add: explosionBody_batteries)

lemma spawnRocket_frame:
  assumes "spawnRocket rnd s = Inr s'"
  shows "gameState s' = gameState s" "batteries s' = batteries s" "score s' = score s"
    "cities s' = cities s" "explosions s' = explosions s" "missiles s' = missiles s"
  using assms by (auto simp: spawnRocket_def Let_def split: if_splits)

lemma spawnStep_frame:
  assumes "spawnStep rnd sc s = Inr s'"
  shows "gameState s' = gameState s" "batteries s' = batteries s" "score s' = score s"
    "cities s' = cities s" "explosions s' = explosions s" "missiles s' = missiles s"
  using assms by (auto simp: spawnStep_def spawnRocket_frame split: if_splits)

lemma setAmmo_frame:
  assumes "setAmmo s = Inr s'"
  shows "gameState s' = gameState s" "batteries s' = batteries s" "score s' = score s"
    "cities s' = cities s" "explosions s' = explosions s" "missiles s' = missiles s"
    "rockets s' = rockets s"
  using assms by (auto simp: setAmmo_def split: list.splits)

lemma check_frame [simp]:
  "batteries (winCheck sc s) = batteries s" "batteries (lossCheck s) = batteries s"
  "score (winCheck sc s) = score s" "score (lossCheck s) = score s"
  "rockets (winCheck sc s) = rockets s" "rockets (lossCheck s) = rockets s"
  "explosions (winCheck sc s) = explosions s" "explosions (lossCheck s) = explosions s"
  by (simp_all add: winCheck_def lossCheck_def)

lemma update_playing_cases:
  assumes "gameState s = Playing" and "update rnd s = Inr s'"
  obtains s4 where "spawnStep rnd (score s) (updateExplosions (updateMissiles (updateRockets s))) = Inr s4"
    and "setAmmo (lossCheck (winCheck (score s) s4)) = Inr s'"
    and "gameState s4 = Playing"
  using assms
  by (auto simp: update_def spawnStep_frame updateExplosions_gameState updateMissiles_gameState
      updateRockets_gameState split: sum.splits)


lemma scaled_distance:
  fixes dx dy c :: real
  shows "sqrt ((dx * c) * (dx * c) + (dy * c) * (dy * c)) = \<bar>c\<bar> * sqrt (dx * dx + dy * dy)"
proof -
  have "(dx * c) * (dx * c) + (dy * c) * (dy * c) = c\<^sup>2 * (dx * dx + dy * dy)"
    by (simp add: power2_eq_square algebra_simps)
  then show ?thesis
    by (simp add: real_sqrt_mult)
qed

lemma rocketMotion_Moved:
  assumes "rocketMotion r = Moved r'"
  shows "2 \<le> rocketDistance r"
    and "x r' = x r + ((targetX r - x r) / rocketDistance r) * speed r"
    and "y r' = y r + ((targetY r - y r) / rocketDistance r) * speed r"
    and "targetX r' = targetX r" and "targetY r' = targetY r" and "speed r' = speed r"
  using assms by (auto simp: rocketMotion_def rocketDistance_def Let_def split: if_splits)

lemma rocketMotion_distance:
  assumes "rocketMotion r = Moved r'"
  shows "rocketDistance r' = \<bar>rocketDistance r - speed r\<bar>"
proof -
  define d where "d = rocketDistance r"
  define dx where "dx = targetX r - x r"
  define dy where "dy = targetY r - y r"
  have d2: "2 \<le> d" using assms unfolding d_def by (rule rocketMotion_Moved)
  have dd: "d = sqrt (dx * dx + dy * dy)"
    by (simp add: d_def dx_def dy_def rocketDistance_def Let_def)
  have ex: "targetX r' - x r' = dx * (1 - speed r / d)"
    using rocketMotion_Moved(2,4)[OF assms] d2
    by (simp add: dx_def d_def algebra_simps)
  have ey: "targetY r' - y r' = dy * (1 - speed r / d)"
    using rocketMotion_Moved(3,5)[OF assms] d2
    by (simp add: dy_def d_def algebra_simps)
  have "rocketDistance r' = \<bar>1 - speed r / d\<bar> * d"
    unfolding rocketDistance_def Let_def ex ey scaled_distance dd ..
  also have "\<dots> = \<bar>(1 - speed r / d) * d\<bar>"
    using d2 by (simp add: abs_mult)
  also have "(1 - speed r / d) * d = d - speed r"
    using d2 by (simp add: field_simps)
  finally show ?thesis by (simp add: d_def)
qed

lemma rocketMotion_tracks:
  assumes "rocketMotion r = Moved r'" and "speedOk r"
  shows "tracks r' r"
proof -
  have "2 \<le> rocketDistance r" using assms(1) by (rule rocketMotion_Moved)
  moreover have "0 \<le> speed r" "speed r \<le> 1"
    using assms(2) by (simp_all add: speedOk_def constants)
  ultimately have "\<bar>rocketDistance r - speed r\<bar> \<le> rocketDistance r" by simp
  then show ?thesis
    using rocketMotion_distance[OF assms(1)] rocketMotion_Moved(4,5,6)[OF assms(1)]
    by (simp add: tracks_def)
qed

lemma tracks_refl: "tracks r r" by (simp add: tracks_def)

lemma tracks_trans: "tracks a b \<Longrightarrow> tracks b c \<Longrightarrow> tracks a c"
  by (auto simp: tracks_def)

lemma length_splice1: "i < length xs \<Longrightarrow> length (splice1 i xs) = length xs - 1"
  by (simp add: splice1_def)

lemma set_splice1: "set (splice1 i xs) \<subseteq> set xs"
  unfolding splice1_def by (auto dest: in_set_takeD in_set_dropD)

lemma subseq_drop_Suc: "subseq (drop (Suc i) xs) (drop i xs)"
proof (cases "i < length xs")
  case True
  then have "drop i xs = xs ! i # drop (Suc i) xs"
    by (simp add: Cons_nth_drop_Suc)
  moreover have "subseq (drop (Suc i) xs) (xs ! i # drop (Suc i) xs)"
    by (rule list_emb_Cons) (rule subseq_order.order_refl)
  ultimately show ?thesis by simp
next
  case False
  then show ?thesis by simp
qed

lemma subseq_splice1: "subseq (splice1 i xs) xs"
proof -
  have "subseq (take i xs @ drop (Suc i) xs) (take i xs @ drop i xs)"
    by (intro list_emb_append_mono subseq_order.order_refl subseq_drop_Suc)
  then show ?thesis by (simp add: splice1_def)
qed

lemma list_all2_splice1:
  "list_all2 P xs ys \<Longrightarrow> list_all2 P (splice1 i xs) (splice1 i ys)"
  unfolding splice1_def
  by (intro list_all2_appendI list_all2_takeI list_all2_dropI)

lemma sameRockets_splice1:
  assumes "sameRockets rs0 t" and "rockets t' = splice1 k (rockets t)"
  shows "sameRockets rs0 t'"
proof -
  from assms(1) obtain before where b: "subseq before rs0" "list_all2 tracks (rockets t) before"
    unfolding sameRockets_def by blast
  have "subseq (splice1 k before) rs0"
    using subseq_splice1 b(1) by (rule subseq_order.order_trans)
  moreover have "list_all2 tracks (rockets t') (splice1 k before)"
    unfolding assms(2) using b(2) by (rule list_all2_splice1)
  ultimately show ?thesis unfolding sameRockets_def by blast
qed

lemma sameRockets_same:
  "sameRockets rs0 t \<Longrightarrow> rockets t' = rockets t \<Longrightarrow> sameRockets rs0 t'"
  by (simp add: sameRockets_def)

lemma sameRockets_rocketBody:
  assumes ok: "\<forall>r\<in>set rs0. speedOk r" and inv: "sameRockets rs0 t" and k: "k < length (rockets t)"
  shows "sameRockets rs0 (rocketBody k t)"
proof (cases "rocketMotion (rockets t ! k)")
  case Arrived
  then have "rockets (rocketBody k t) = splice1 k (rockets t)"
    by (simp add: rocketBody_def Let_def)
  with inv show ?thesis by (rule sameRockets_splice1)
next
  case (Moved r')
  from inv obtain before where b: "subseq before rs0" "list_all2 tracks (rockets t) before"
    unfolding sameRockets_def by blast
  have len: "k < length before"
    using k list_all2_lengthD[OF b(2)] by simp
  have tk: "tracks (rockets t ! k) (before ! k)"
    using b(2) k by (rule list_all2_nthD)
  have "before ! k \<in> set before"
    using len by (rule nth_mem)
  with b(1) obtain r0 where "r0 \<in> set rs0" "before ! k = r0"
    by (rule list_emb_set)
  then have "before ! k \<in> set rs0" by simp
  then have "speedOk (before ! k)" using ok by blast
  then have "speedOk (rockets t ! k)"
    using tk by (simp add: speedOk_def tracks_def)
  with Moved have "tracks r' (rockets t ! k)" by (rule rocketMotion_tracks)
  then have "tracks r' (before ! k)" using tk by (rule tracks_trans)
  with b(2) have "list_all2 tracks ((rockets t)[k := r']) (before[k := before ! k])"
    by (rule list_all2_update_cong)
  moreover have "rockets (rocketBody k t) = (rockets t)[k := r']"
    using Moved by (simp add: rocketBody_def Let_def)
  ultimately show ?thesis
    unfolding sameRockets_def using b(1) by auto
qed

lemma sameRockets_refl: "sameRockets (rockets s) s"
  unfolding sameRockets_def
  by (intro exI[of _ "rockets s"] conjI subseq_order.order_refl list_all2_refl tracks_refl)

lemma sameRockets_updateRockets:
  assumes "\<forall>r\<in>set (rockets s). speedOk r"
  shows "sameRockets (rockets s) (updateRockets s)"
  unfolding updateRockets_def
  by (rule forEach_invariant[where P="sameRockets (rockets s)"])
     (simp_all add: sameRockets_refl sameRockets_rocketBody[OF assms])

lemma sameRockets_updateMissiles:
  assumes "sameRockets rs0 s"
  shows "sameRockets rs0 (updateMissiles s)"
  unfolding updateMissiles_def
proof (rule forEach_invariant[where P="sameRockets rs0"])
  show "sameRockets rs0 s" by (rule assms)
next
  fix k t
  assume "sameRockets rs0 t"
  then show "sameRockets rs0 (missileBody k t)"
    by (rule sameRockets_same) (rule missileBody_frame)
qed

lemma sameRockets_collisionBody:
  assumes "sameRockets rs0 t"
  shows "sameRockets rs0 (collisionBody e k t)"
proof (cases "collisionBody e k t = t")
  case True
  with assms show ?thesis by simp
next
  case False
  then have "rockets (collisionBody e k t) = splice1 k (rockets t)"
    by (simp add: collisionBody_def Let_def split: if_splits)
  with assms show ?thesis by (rule sameRockets_splice1)
qed

lemma sameRockets_explosionBody:
  assumes "sameRockets rs0 t"
  shows "sameRockets rs0 (explosionBody k t)"
proof -
  obtain e removed where lc: "explosionLifecycle (explosions t ! k) = (e, removed)"
    by (cases "explosionLifecycle (explosions t ! k)")
  let ?t1 = "t\<lparr>explosions := (if removed then splice1 k (explosions t) else (explosions t)[k := e])\<rparr>"
  have "sameRockets rs0 ?t1"
    using assms by (rule sameRockets_same) simp
  then have "sameRockets rs0 (forEach (\<lambda>s. length (rockets s)) (collisionBody e) ?t1)"
    by (rule forEach_invariant) (rule sameRockets_collisionBody)
  then show ?thesis
    by (simp add: explosionBody_def lc)
qed

lemma sameRockets_updateExplosions:
  assumes "sameRockets rs0 s"
  shows "sameRockets rs0 (updateExplosions s)"
  unfolding updateExplosions_def
  using assms by (rule forEach_invariant) (rule sameRockets_explosionBody)

lemma spawnRocket_rockets:
  assumes "spawnRocket rnd s = Inr s'"
  shows "rockets s' = rockets s \<or> (\<exists>fresh. rockets s' = rockets s @ [fresh] \<and> y fresh = 0)"
  using assms by (auto simp: spawnRocket_def Let_def split: if_splits)

lemma spawnStep_rockets:
  assumes "spawnStep rnd sc s = Inr s'"
  shows "rockets s' = rockets s \<or> (\<exists>fresh. rockets s' = rockets s @ [fresh] \<and> y fresh = 0)"
  using assms by (auto simp: spawnStep_def split: if_splits dest: spawnRocket_rockets)

lemma missileMotion_Moved:
  assumes "missileMotion m = Moved m'"
  shows "MISSILE_SPEED \<le> missileDistance m"
    and "x m' = x m + ((destX m - x m) / missileDistance m) * MISSILE_SPEED"
    and "y m' = y m + ((destY m - y m) / missileDistance m) * MISSILE_SPEED"
proof -
  have *: "\<not> missileDistance m < MISSILE_SPEED \<and>
     m' = m\<lparr>x := x m + ((destX m - x m) / missileDistance m) * MISSILE_SPEED,
            y := y m + ((destY m - y m) / missileDistance m) * MISSILE_SPEED\<rparr>"
    using assms unfolding missileMotion_def missileDistance_def Let_def
    by (simp split: if_splits)
  from * show "MISSILE_SPEED \<le> missileDistance m" by simp
  from * have "x m' = x (m\<lparr>x := x m + ((destX m - x m) / missileDistance m) * MISSILE_SPEED,
            y := y m + ((destY m - y m) / missileDistance m) * MISSILE_SPEED\<rparr>)" by simp
  then show "x m' = x m + ((destX m - x m) / missileDistance m) * MISSILE_SPEED" by simp
  from * have "y m' = y (m\<lparr>x := x m + ((destX m - x m) / missileDistance m) * MISSILE_SPEED,
            y := y m + ((destY m - y m) / missileDistance m) * MISSILE_SPEED\<rparr>)" by simp
  then show "y m' = y m + ((destY m - y m) / missileDistance m) * MISSILE_SPEED" by simp
qed

text \<open>The explosion lifecycle keeps radii on their two ladders.\<close>

lemma explosionOk_fresh: "explosionOk \<lparr>x = px, y = py, radius = 2, growing = True\<rparr>"
  unfolding explosionOk_def by (simp add: bexI[of _ 0])

lemma explosionOk_grow:
  assumes "explosionOk e" and "growing e"
  shows "explosionOk (fst (explosionLifecycle e))" and "\<not> snd (explosionLifecycle e)"
proof -
  from assms obtain k :: nat where k: "k \<le> 25" "radius e = 2 + 1.5 * real k"
    unfolding explosionOk_def by auto
  show "\<not> snd (explosionLifecycle e)"
    using assms(2) by (simp add: explosionLifecycle_def Let_def)
  show "explosionOk (fst (explosionLifecycle e))"
  proof (cases "k = 25")
    case True
    then have "radius e + EXPLOSION_GROWTH_RATE = 41"
      using k by (simp add: constants)
    then have "fst (explosionLifecycle e) = e\<lparr>radius := 41, growing := False\<rparr>"
      using assms(2) by (simp add: explosionLifecycle_def Let_def constants)
    then show ?thesis
      unfolding explosionOk_def by (simp add: bexI[of _ 0])
  next
    case False
    with k have k24: "k \<le> 24" by simp
    then have "real k \<le> 24" by simp
    then have lt: "radius e + EXPLOSION_GROWTH_RATE < EXPLOSION_RADIUS_MAX"
      using k(2) by (simp add: constants)
    then have "fst (explosionLifecycle e) = e\<lparr>radius := radius e + EXPLOSION_GROWTH_RATE\<rparr>"
      using assms(2) by (simp add: explosionLifecycle_def Let_def)
    moreover have "radius e + EXPLOSION_GROWTH_RATE = 2 + 1.5 * real (Suc k)"
      using k(2) by (simp add: constants field_simps)
    moreover have "Suc k \<in> {0..25}" using k24 by simp
    ultimately show ?thesis
      unfolding explosionOk_def using assms(2) by (auto intro: bexI[of _ "Suc k"])
  qed
qed

lemma explosionOk_shrink:
  assumes "explosionOk e" and "\<not> growing e" and "\<not> snd (explosionLifecycle e)"
  shows "explosionOk (fst (explosionLifecycle e))"
proof -
  from assms obtain k :: nat where k: "k \<le> 27" "radius e = 41 - 1.5 * real k"
    unfolding explosionOk_def by auto
  have fst: "fst (explosionLifecycle e) = e\<lparr>radius := radius e - EXPLOSION_GROWTH_RATE\<rparr>"
    using assms(2) by (simp add: explosionLifecycle_def Let_def)
  have "0 < radius e - EXPLOSION_GROWTH_RATE"
    using assms(2,3) by (simp add: explosionLifecycle_def Let_def)
  then have "1.5 * real (Suc k) < 41"
    using k(2) by (simp add: constants field_simps)
  then have "real (Suc k) < 28" by simp
  then have "Suc k < 28" by (simp only: of_nat_less_numeral_iff)
  then have "Suc k \<in> {0..27}" by simp
  moreover have "radius e - EXPLOSION_GROWTH_RATE = 41 - 1.5 * real (Suc k)"
    using k(2) by (simp add: constants field_simps)
  ultimately show ?thesis
    unfolding explosionOk_def fst using assms(2) by (auto intro: bexI[of _ "Suc k"])
qed

lemma explosionOk_lifecycle:
  assumes "explosionOk e" and "\<not> snd (explosionLifecycle e)"
  shows "explosionOk (fst (explosionLifecycle e))"
  using assms explosionOk_grow(1) explosionOk_shrink by blast

lemma explosionOk_bounds:
  assumes "explosionOk e"
  shows "radius e \<le> 41" and "growing e \<Longrightarrow> radius e < EXPLOSION_RADIUS_MAX"
    and "0 < radius e"
proof -
  show "radius e \<le> 41"
  proof (cases "growing e")
    case True
    with assms obtain k :: nat where "k \<le> 25" "radius e = 2 + 1.5 * real k"
      unfolding explosionOk_def by auto
    moreover from this have "real k \<le> 25" by simp
    ultimately show ?thesis by simp
  next
    case False
    with assms obtain k :: nat where "radius e = 41 - 1.5 * real k"
      unfolding explosionOk_def by auto
    then show ?thesis by simp
  qed
  show "radius e < EXPLOSION_RADIUS_MAX" if "growing e"
  proof -
    from assms that obtain k :: nat where "k \<le> 25" "radius e = 2 + 1.5 * real k"
      unfolding explosionOk_def by auto
    moreover from this have "real k \<le> 25" by simp
    ultimately show ?thesis by (simp add: constants)
  qed
  show "0 < radius e"
  proof (cases "growing e")
    case True
    with assms obtain k :: nat where "radius e = 2 + 1.5 * real k"
      unfolding explosionOk_def by auto
    then show ?thesis by simp
  next
    case False
    with assms obtain k :: nat where k: "k \<le> 27" "radius e = 41 - 1.5 * real k"
      unfolding explosionOk_def by auto
    from k(1) have "real k \<le> 27" by simp
    with k(2) show ?thesis by simp
  qed
qed

lemma explosionsOk_rocketBody:
  assumes "list_all explosionOk (explosions t)"
  shows "list_all explosionOk (explosions (rocketBody k t))"
  using assms
  by (cases "rocketMotion (rockets t ! k)") (simp_all add: rocketBody_def Let_def explosionOk_fresh)

lemma explosionsOk_missileBody:
  assumes "list_all explosionOk (explosions t)"
  shows "list_all explosionOk (explosions (missileBody k t))"
  using assms
  by (cases "missileMotion (reaim (rockets t) (missiles t ! k))")
     (simp_all add: missileBody_def Let_def explosionOk_fresh)

lemma explosionBody_explosions:
  "explosions (explosionBody k t) =
     (if snd (explosionLifecycle (explosions t ! k)) then splice1 k (explosions t)
      else (explosions t)[k := fst (explosionLifecycle (explosions t ! k))])"
proof -
  obtain e removed where lc: "explosionLifecycle (explosions t ! k) = (e, removed)"
    by (cases "explosionLifecycle (explosions t ! k)")
  let ?t1 = "t\<lparr>explosions := (if removed then splice1 k (explosions t) else (explosions t)[k := e])\<rparr>"
  have "explosions (forEach (\<lambda>s. length (rockets s)) (collisionBody e) ?t1) = explosions ?t1"
    by (rule forEach_invariant[where P="\<lambda>u. explosions u = explosions ?t1"])
       (simp_all add: collisionBody_frame)
  then show ?thesis
    by (simp add: explosionBody_def lc)
qed

lemma explosionsOk_explosionBody:
  assumes "list_all explosionOk (explosions t)" and "k < length (explosions t)"
  shows "list_all explosionOk (explosions (explosionBody k t))"
proof (cases "snd (explosionLifecycle (explosions t ! k))")
  case True
  then have "explosions (explosionBody k t) = splice1 k (explosions t)"
    by (simp add: explosionBody_explosions)
  then show ?thesis
    using assms(1) set_splice1[of k "explosions t"] by (auto simp: list_all_iff)
next
  case False
  have "explosionOk (explosions t ! k)"
    using assms by (simp add: list_all_length)
  then have "explosionOk (fst (explosionLifecycle (explosions t ! k)))"
    using False by (rule explosionOk_lifecycle)
  moreover have "explosions (explosionBody k t) =
      (explosions t)[k := fst (explosionLifecycle (explosions t ! k))]"
    using False by (simp add: explosionBody_explosions)
  ultimately show ?thesis
    using assms(1) set_update_subset_insert[of "explosions t" k]
    by (auto simp: list_all_iff)
qed

lemma explosionsOk_update:
  assumes "list_all explosionOk (explosions s)" and "update rnd s = Inr s'"
  shows "list_all explosionOk (explosions s')"
proof (cases "gameState s = Playing")
  case False
  with assms show ?thesis by (simp add: update_def)
next
  case True
  let ?s3 = "updateExplosions (updateMissiles (updateRockets s))"
  from True assms(2) obtain s4 where
    s4: "spawnStep rnd (score s) ?s3 = Inr s4"
    and s': "setAmmo (lossCheck (winCheck (score s) s4)) = Inr s'"
    by (rule update_playing_cases)
  have 1: "list_all explosionOk (explosions (updateRockets s))"
    unfolding updateRockets_def
    using assms(1) by (rule forEach_invariant) (rule explosionsOk_rocketBody)
  have 2: "list_all explosionOk (explosions (updateMissiles (updateRockets s)))"
    unfolding updateMissiles_def
    using 1 by (rule forEach_invariant) (rule explosionsOk_missileBody)
  have 3: "list_all explosionOk (explosions ?s3)"
    unfolding updateExplosions_def
    using 2 by (rule forEach_invariant) (rule explosionsOk_explosionBody)
  have "explosions s' = explosions s4"
    using s' by (simp add: setAmmo_frame)
  also have "\<dots> = explosions ?s3"
    using s4 by (rule spawnStep_frame)
  finally show ?thesis using 3 by simp
qed

lemma handleCanvasClick_explosions: "explosions (handleCanvasClick tx ty s) = explosions s"
  by (simp add: handleCanvasClick_def Let_def split: option.splits prod.splits)

lemma reachable_explosionsOk:
  assumes "reachable s"
  shows "list_all explosionOk (explosions s)"
  using assms
proof (induction rule: reachable.induct)
  case mounted
  show ?case by (simp add: initialGame_def)
next
  case (started s)
  show ?case by (simp add: startGame_def)
next
  case (clicked s tx ty)
  then show ?case by (simp add: handleCanvasClick_explosions)
next
  case (ticked s rnd s')
  from ticked.IH ticked.hyps(3) show ?case by (rule explosionsOk_update)
qed

section \<open>Invariants of the reachable states\<close>

text \<open>Every reachable state has the fixed layout.\<close>

lemma layout_same:
  "layout s \<Longrightarrow> map position (batteries t) = map position (batteries s) \<Longrightarrow>
   map position (cities t) = map position (cities s) \<Longrightarrow> layout t"
  by (simp add: layout_def)

lemma rocketBody_positions:
  "map position (batteries (rocketBody k t)) = map position (batteries t)"
  "map position (cities (rocketBody k t)) = map position (cities t)"
  by (cases "rocketMotion (rockets t ! k)";
      simp add: rocketBody_def Let_def position_def comp_def if_distrib cong: if_cong)+

lemma layout_rocketBody: "layout t \<Longrightarrow> layout (rocketBody k t)"
  by (erule layout_same) (rule rocketBody_positions)+

lemma layout_missileBody: "layout t \<Longrightarrow> layout (missileBody k t)"
  by (erule layout_same) (simp_all add: missileBody_frame)

lemma explosionBody_cities: "cities (explosionBody k s) = cities s"
  unfolding explosionBody_def Let_def
  by (auto split: prod.splits intro!: forEach_invariant[where P="\<lambda>t. cities t = cities s"]
      simp: collisionBody_frame)

lemma layout_explosionBody: "layout t \<Longrightarrow> layout (explosionBody k t)"
  by (erule layout_same) (simp_all add: explosionBody_batteries explosionBody_cities)

lemma layout_update:
  assumes "layout s" and "update rnd s = Inr s'"
  shows "layout s'"
proof (cases "gameState s = Playing")
  case False
  with assms show ?thesis by (simp add: update_def)
next
  case True
  let ?s3 = "updateExplosions (updateMissiles (updateRockets s))"
  from True assms(2) obtain s4 where
    s4: "spawnStep rnd (score s) ?s3 = Inr s4"
    and s': "setAmmo (lossCheck (winCheck (score s) s4)) = Inr s'"
    by (rule update_playing_cases)
  have 1: "layout (updateRockets s)"
    unfolding updateRockets_def
    using assms(1) by (rule forEach_invariant) (rule layout_rocketBody)
  have 2: "layout (updateMissiles (updateRockets s))"
    unfolding updateMissiles_def
    using 1 by (rule forEach_invariant) (rule layout_missileBody)
  have 3: "layout ?s3"
    unfolding updateExplosions_def
    using 2 by (rule forEach_invariant) (rule layout_explosionBody)
  have "batteries s' = batteries (lossCheck (winCheck (score s) s4))"
    and "cities s' = cities (lossCheck (winCheck (score s) s4))"
    using s' by (simp_all add: setAmmo_frame)
  then have "batteries s' = batteries s4" and "cities s' = cities s4"
    by (simp_all add: lossCheck_def winCheck_def)
  then have "batteries s' = batteries ?s3" and "cities s' = cities ?s3"
    using spawnStep_frame(2,4)[OF s4] by simp_all
  with 3 show ?thesis by (simp add: layout_def)
qed

lemma map_update_same: "f v = f (xs ! i) \<Longrightarrow> map f (xs[i := v]) = map f xs"
  by (induction xs arbitrary: i) (auto split: nat.splits)

lemma handleCanvasClick_positions:
  "map position (batteries (handleCanvasClick tx ty s)) = map position (batteries s)"
  "cities (handleCanvasClick tx ty s) = cities s"
  by (auto simp: handleCanvasClick_def Let_def position_def intro!: map_update_same
      split: option.splits)

lemma layout_click: "layout s \<Longrightarrow> layout (handleCanvasClick tx ty s)"
  by (erule layout_same) (simp_all add: handleCanvasClick_positions)

lemma reachable_layout: "reachable s \<Longrightarrow> layout s"
proof (induction rule: reachable.induct)
  case mounted
  show ?case by (simp add: layout_def initialGame_def)
next
  case (started s)
  show ?case by (simp add: layout_def startGame_def)
next
  case (clicked s tx ty)
  then show ?case by (simp add: layout_click)
next
  case (ticked s rnd s')
  from ticked.IH ticked.hyps(3) show ?case by (rule layout_update)
qed

text \<open>
  \<^verbatim>\<open>update\<close> returns: with rolls in the range of \<^verbatim>\<open>Math.random()\<close> the target index is
  within the pool, and with three batteries in the store the ammo snapshot can be read.
\<close>

lemma rocketBody_length_batteries: "length (batteries (rocketBody k t)) = length (batteries t)"
  by (cases "rocketMotion (rockets t ! k)") (simp_all add: rocketBody_def Let_def)

lemma updateRockets_length_batteries:
  "length (batteries (updateRockets s)) = length (batteries s)"
  unfolding updateRockets_def
  by (rule forEach_invariant[where P="\<lambda>t. length (batteries t) = length (batteries s)"])
     (simp_all add: rocketBody_length_batteries)

lemma spawnRocket_returns:
  assumes "validRolls rnd"
  shows "\<exists>s'. spawnRocket rnd s = Inr s'"
proof -
  define targets where "targets =
    map point.truncate (filter (\<lambda>b. \<not> destroyed b) (batteries s)) @
    map point.truncate (filter (\<lambda>c. \<not> destroyed c) (cities s))"
  define n where "n = length targets"
  from assms have roll: "0 \<le> targetRoll rnd" "targetRoll rnd < 1"
    by (simp_all add: validRolls_def)
  have unfold: "spawnRocket rnd s =
     (if n = 0 then Inr s
      else if \<lfloor>targetRoll rnd * real n\<rfloor> < 0 \<or> int n \<le> \<lfloor>targetRoll rnd * real n\<rfloor>
        then Inl TypeError
        else Inr (s\<lparr>rockets := rockets s @
          [\<lparr>x = startXRoll rnd * CANVAS_WIDTH, y = 0,
            targetX = x (targets ! nat \<lfloor>targetRoll rnd * real n\<rfloor>),
            targetY = y (targets ! nat \<lfloor>targetRoll rnd * real n\<rfloor>),
            speed = ROCKET_SPEED_MIN + speedRoll rnd * (ROCKET_SPEED_MAX - ROCKET_SPEED_MIN)\<rparr>]\<rparr>))"
    unfolding spawnRocket_def Let_def targets_def n_def by simp
  show ?thesis
  proof (cases "n = 0")
    case True
    then show ?thesis by (simp add: unfold)
  next
    case False
    then have pos: "0 < real n" by simp
    have "0 \<le> targetRoll rnd * real n"
      using roll(1) by simp
    then have lo: "\<not> \<lfloor>targetRoll rnd * real n\<rfloor> < 0"
      by simp
    have "targetRoll rnd * real n < real n"
      using roll(2) pos by simp
    then have hi: "\<not> int n \<le> \<lfloor>targetRoll rnd * real n\<rfloor>"
      by (simp add: floor_less_iff not_le)
    from lo hi False show ?thesis
      by (simp add: unfold)
  qed
qed

lemma update_returns:
  assumes "validRolls rnd" and "3 \<le> length (batteries s)"
  shows "\<exists>s'. update rnd s = Inr s'"
proof (cases "gameState s = Playing")
  case False
  then show ?thesis by (simp add: update_def)
next
  case True
  let ?s3 = "updateExplosions (updateMissiles (updateRockets s))"
  have "\<exists>s4. spawnStep rnd (score s) ?s3 = Inr s4"
  proof (cases "spawnRoll rnd < 0.015 + real_of_int (score s) / 10000")
    case True
    then show ?thesis
      using spawnRocket_returns[OF assms(1)] by (simp add: spawnStep_def)
  next
    case False
    then show ?thesis by (simp add: spawnStep_def)
  qed
  then obtain s4 where s4: "spawnStep rnd (score s) ?s3 = Inr s4" ..
  have "batteries s4 = batteries ?s3"
    using s4 by (rule spawnStep_frame)
  then have "length (batteries (lossCheck (winCheck (score s) s4))) = length (batteries s)"
    by (simp add: updateExplosions_batteries updateMissiles_batteries
        updateRockets_length_batteries)
  with assms(2) have "3 \<le> length (batteries (lossCheck (winCheck (score s) s4)))"
    by simp
  then obtain b0 b1 b2 rest where
    "batteries (lossCheck (winCheck (score s) s4)) = b0 # b1 # b2 # rest"
    by (metis Suc_le_length_iff numeral_3_eq_3)
  then have "\<exists>s'. setAmmo (lossCheck (winCheck (score s) s4)) = Inr s'"
    by (simp add: setAmmo_def)
  with True s4 show ?thesis
    by (simp add: update_def)
qed

lemma reachable_returns:
  assumes "reachable s" and "validRolls rnd"
  shows "\<exists>s'. update rnd s = Inr s'"
proof -
  from assms(1) have "layout s" by (rule reachable_layout)
  then have "length (map position (batteries s)) = length (map position initialBatteries)"
    by (simp add: layout_def)
  then have "3 \<le> length (batteries s)"
    by (simp add: initialBatteries_def)
  with assms(2) show ?thesis by (rule update_returns)
qed

text \<open>Every rocket of a reachable state has a speed in the range it was spawned with.\<close>

lemma speedOk_rocketBody:
  assumes "list_all speedOk (rockets t)" and "k < length (rockets t)"
  shows "list_all speedOk (rockets (rocketBody k t))"
proof (cases "rocketMotion (rockets t ! k)")
  case Arrived
  then have "rockets (rocketBody k t) = splice1 k (rockets t)"
    by (simp add: rocketBody_def Let_def)
  then show ?thesis
    using assms(1) set_splice1[of k "rockets t"] by (auto simp: list_all_iff)
next
  case (Moved r')
  have "speedOk (rockets t ! k)"
    using assms by (simp add: list_all_length)
  then have "speedOk r'"
    using rocketMotion_Moved(6)[OF Moved] by (simp add: speedOk_def)
  moreover have "rockets (rocketBody k t) = (rockets t)[k := r']"
    using Moved by (simp add: rocketBody_def Let_def)
  ultimately show ?thesis
    using assms(1) set_update_subset_insert[of "rockets t" k]
    by (auto simp: list_all_iff)
qed

lemma speedOk_collisionBody:
  assumes "list_all speedOk (rockets t)"
  shows "list_all speedOk (rockets (collisionBody e k t))"
  using assms set_splice1[of k "rockets t"]
  by (auto simp: collisionBody_def Let_def list_all_iff)

lemma speedOk_explosionBody:
  assumes "list_all speedOk (rockets t)"
  shows "list_all speedOk (rockets (explosionBody k t))"
proof -
  obtain e removed where lc: "explosionLifecycle (explosions t ! k) = (e, removed)"
    by (cases "explosionLifecycle (explosions t ! k)")
  let ?t1 = "t\<lparr>explosions := (if removed then splice1 k (explosions t) else (explosions t)[k := e])\<rparr>"
  have "list_all speedOk (rockets ?t1)" using assms by simp
  then have "list_all speedOk (rockets (forEach (\<lambda>s. length (rockets s)) (collisionBody e) ?t1))"
    by (rule forEach_invariant) (rule speedOk_collisionBody)
  then show ?thesis by (simp add: explosionBody_def lc)
qed

lemma speedOk_spawnRocket:
  assumes "list_all speedOk (rockets s)" and "validRolls rnd" and "spawnRocket rnd s = Inr s'"
  shows "list_all speedOk (rockets s')"
proof -
  from assms(2) have "0 \<le> speedRoll rnd" "speedRoll rnd \<le> 1"
    by (simp_all add: validRolls_def)
  then have "speedOk \<lparr>x = px, y = py, targetX = tx, targetY = ty,
      speed = ROCKET_SPEED_MIN + speedRoll rnd * (ROCKET_SPEED_MAX - ROCKET_SPEED_MIN)\<rparr>"
    for px py tx ty
    by (simp add: speedOk_def constants)
  with assms(1,3) show ?thesis
    by (auto simp: spawnRocket_def Let_def split: if_splits)
qed

lemma speedOk_update:
  assumes "list_all speedOk (rockets s)" and "validRolls rnd" and "update rnd s = Inr s'"
  shows "list_all speedOk (rockets s')"
proof (cases "gameState s = Playing")
  case False
  with assms show ?thesis by (simp add: update_def)
next
  case True
  let ?s3 = "updateExplosions (updateMissiles (updateRockets s))"
  from True assms(3) obtain s4 where
    s4: "spawnStep rnd (score s) ?s3 = Inr s4"
    and s': "setAmmo (lossCheck (winCheck (score s) s4)) = Inr s'"
    by (rule update_playing_cases)
  have 1: "list_all speedOk (rockets (updateRockets s))"
    unfolding updateRockets_def
    using assms(1) by (rule forEach_invariant) (rule speedOk_rocketBody)
  have 2: "list_all speedOk (rockets (updateMissiles (updateRockets s)))"
    unfolding updateMissiles_def
    using 1 by (rule forEach_invariant) (simp add: missileBody_frame)
  have 3: "list_all speedOk (rockets ?s3)"
    unfolding updateExplosions_def
    using 2 by (rule forEach_invariant) (rule speedOk_explosionBody)
  have 4: "list_all speedOk (rockets s4)"
  proof (cases "spawnRoll rnd < 0.015 + real_of_int (score s) / 10000")
    case True
    with s4 have "spawnRocket rnd ?s3 = Inr s4" by (simp add: spawnStep_def)
    with 3 assms(2) show ?thesis by (rule speedOk_spawnRocket)
  next
    case False
    with s4 have "s4 = ?s3" by (simp add: spawnStep_def)
    with 3 show ?thesis by simp
  qed
  have "rockets s' = rockets s4"
    using s' by (simp add: setAmmo_frame)
  with 4 show ?thesis by simp
qed

lemma handleCanvasClick_rockets: "rockets (handleCanvasClick tx ty s) = rockets s"
  by (simp add: handleCanvasClick_def Let_def split: option.splits prod.splits)

lemma reachable_speedOk: "reachable s \<Longrightarrow> list_all speedOk (rockets s)"
proof (induction rule: reachable.induct)
  case mounted
  show ?case by (simp add: initialGame_def)
next
  case (started s)
  show ?case by (simp add: startGame_def)
next
  case (clicked s tx ty)
  then show ?case by (simp add: handleCanvasClick_rockets)
next
  case (ticked s rnd s')
  from ticked.IH ticked.hyps(2,3) show ?case by (rule speedOk_update)
qed

text \<open>The sample rolls are rolls \<^verbatim>\<open>Math.random()\<close> can return.\<close>

lemma validRolls_quiet: "validRolls quietRolls"
  by (simp add: validRolls_def quietRolls_def)

lemma validRolls_spawn: "validRolls spawnRolls"
  by (simp add: validRolls_def spawnRolls_def)

lemma validRolls_barrage: "validRolls barrageRolls"
  by (simp add: validRolls_def barrageRolls_def)

lemma validRolls_slow: "validRolls slowRolls"
  by (simp add: validRolls_def slowRolls_def)

section \<open>Sample runs\<close>

lemma lastStand_update:
  "update quietRolls lastStand =
     Inr (lastStand\<lparr>gameState := Lost, ammoState := \<lparr>left = 0, center = 0, right = 0\<rparr>\<rparr>)"
  by (simp add: run_defs lastStand_def startGame_def initialGame_def quietRolls_def
      ruinedBatteries_def initialBatteries_def constants)

lemma batteriesDown_update:
  "update quietRolls batteriesDown =
     Inr (batteriesDown\<lparr>gameState := Lost, ammoState := \<lparr>left = 0, center = 0, right = 0\<rparr>\<rparr>)"
  by (simp add: run_defs batteriesDown_def startGame_def initialGame_def quietRolls_def
      ruinedBatteries_def initialBatteries_def constants)

lemma fallingRocket_motion:
  "rocketMotion fallingRocket = Moved (fallingRocket\<lparr>y := 100.5\<rparr>)"
  by (simp add: rocketMotion_def fallingRocket_def)

lemma climbingMissile_motion:
  "missileMotion climbingMissile = Moved (climbingMissile\<lparr>y := 573\<rparr>)"
  by (simp add: missileMotion_def climbingMissile_def constants)

lemma oneRocket_update:
  "update quietRolls oneRocket = Inr (oneRocket\<lparr>rockets := [fallingRocket\<lparr>y := 100.5\<rparr>]\<rparr>)"
  by (simp add: run_defs rocketBody_def fallingRocket_motion oneRocket_def startGame_def
      initialGame_def quietRolls_def initialBatteries_def constants)

section \<open>The tick outside the playing phase\<close>

text \<open>
  Claim C5.  A call of \<^verbatim>\<open>update\<close> while \<^verbatim>\<open>gameState\<close> is not \<^verbatim>\<open>'playing'\<close> returns at once:
  the rocket, missile, explosion, battery and city stores, the score, the phase and the
  ammo snapshot are all as they were.
\<close>

theorem update_not_playing_noop:
  "gameState s \<noteq> Playing \<Longrightarrow> update rnd s = Inr s"
  by (simp add: update_def)

theorem update_not_playing_noop_witness:
  "gameState initialGame \<noteq> Playing \<and> update quietRolls initialGame = Inr initialGame"
  using update_not_playing_noop [of initialGame quietRolls]
  by (simp add: initialGame_def)

section \<open>The loss check\<close>

text \<open>
  Claim C4.  After a tick of the playing phase the phase is \<^verbatim>\<open>'lost'\<close> exactly when every
  battery's \<^verbatim>\<open>destroyed\<close> flag is set at the check; neither the cities nor the score enter
  the condition, so the round is not lost while one battery stands.
\<close>

theorem lost_iff_all_batteries_destroyed:
  assumes "gameState s = Playing" and "update rnd s = Inr s'"
  shows "gameState s' = Lost \<longleftrightarrow> list_all destroyed (batteries s')"
proof -
  from assms obtain s4 where
    s4: "spawnStep rnd (score s) (updateExplosions (updateMissiles (updateRockets s))) = Inr s4"
    and s': "setAmmo (lossCheck (winCheck (score s) s4)) = Inr s'"
    and p: "gameState s4 = Playing"
    by (rule update_playing_cases)
  have g: "gameState s' = gameState (lossCheck (winCheck (score s) s4))"
    and b: "batteries s' = batteries (lossCheck (winCheck (score s) s4))"
    using s' by (simp_all add: setAmmo_frame)
  have "batteries s' = batteries s4"
    using b by simp
  then show ?thesis using g p
    by (simp add: lossCheck_def winCheck_def)
qed

theorem lost_iff_all_batteries_destroyed_witness:
  "gameState batteriesDown = Playing \<and>
   update quietRolls batteriesDown =
     Inr (batteriesDown\<lparr>gameState := Lost, ammoState := \<lparr>left = 0, center = 0, right = 0\<rparr>\<rparr>) \<and>
   score batteriesDown = 0 \<and> \<not> list_ex destroyed (cities batteriesDown) \<and>
   gameState (batteriesDown\<lparr>gameState := Lost,
     ammoState := \<lparr>left = 0, center = 0, right = 0\<rparr>\<rparr>) = Lost \<and>
   list_all destroyed (batteries (batteriesDown\<lparr>gameState := Lost,
     ammoState := \<lparr>left = 0, center = 0, right = 0\<rparr>\<rparr>))"
proof -
  have p: "gameState batteriesDown = Playing"
    by (simp add: batteriesDown_def startGame_def)
  have c: "score batteriesDown = 0 \<and> \<not> list_ex destroyed (cities batteriesDown)"
    by (simp add: batteriesDown_def startGame_def initialCities_def)
  from lost_iff_all_batteries_destroyed [OF p batteriesDown_update] p c batteriesDown_update
  show ?thesis by simp
qed

section \<open>Win and loss on the same tick\<close>

text \<open>
  Claim C10.  If on a tick of the playing phase the score read by the win check is at least
  1000 and every battery is destroyed, the phase after the tick is \<^verbatim>\<open>'lost'\<close>: the win check
  sets \<^verbatim>\<open>'won'\<close>, and the loss check, which runs after it whatever it did, sets \<^verbatim>\<open>'lost'\<close>.
\<close>

theorem loss_overrides_win:
  assumes "gameState s = Playing" and "WIN_SCORE \<le> score s" and "update rnd s = Inr s'"
    and "list_all destroyed (batteries s')"
  shows "gameState s' = Lost \<and>
    (\<exists>s4. spawnStep rnd (score s) (updateExplosions (updateMissiles (updateRockets s))) = Inr s4 \<and>
          gameState (winCheck (score s) s4) = Won \<and>
          setAmmo (lossCheck (winCheck (score s) s4)) = Inr s')"
proof -
  from assms(1,3) obtain s4 where
    s4: "spawnStep rnd (score s) (updateExplosions (updateMissiles (updateRockets s))) = Inr s4"
    and s': "setAmmo (lossCheck (winCheck (score s) s4)) = Inr s'"
    and p: "gameState s4 = Playing"
    by (rule update_playing_cases)
  have g: "gameState s' = gameState (lossCheck (winCheck (score s) s4))"
    and b: "batteries s' = batteries (lossCheck (winCheck (score s) s4))"
    using s' by (simp_all add: setAmmo_frame)
  have w: "gameState (winCheck (score s) s4) = Won"
    using assms(2) by (simp add: winCheck_def)
  have "batteries s' = batteries s4"
    using b by simp
  then have "gameState s' = Lost"
    using g assms(4) by (simp add: lossCheck_def)
  with s4 s' w show ?thesis by blast
qed

theorem loss_overrides_win_witness:
  "gameState lastStand = Playing \<and> WIN_SCORE \<le> score lastStand \<and>
   update quietRolls lastStand =
     Inr (lastStand\<lparr>gameState := Lost, ammoState := \<lparr>left = 0, center = 0, right = 0\<rparr>\<rparr>) \<and>
   list_all destroyed (batteries (lastStand\<lparr>gameState := Lost,
     ammoState := \<lparr>left = 0, center = 0, right = 0\<rparr>\<rparr>)) \<and>
   gameState (lastStand\<lparr>gameState := Lost,
     ammoState := \<lparr>left = 0, center = 0, right = 0\<rparr>\<rparr>) = Lost"
proof -
  have p: "gameState lastStand = Playing" and w: "WIN_SCORE \<le> score lastStand"
    by (simp_all add: lastStand_def startGame_def constants)
  have d: "list_all destroyed (batteries (lastStand\<lparr>gameState := Lost,
      ammoState := \<lparr>left = 0, center = 0, right = 0\<rparr>\<rparr>))"
    by (simp add: lastStand_def ruinedBatteries_def initialBatteries_def)
  from loss_overrides_win [OF p w lastStand_update d] p w d lastStand_update
  show ?thesis by simp
qed

section \<open>Rockets close in on their targets\<close>

text \<open>
  Claim C8.  Over a tick of the playing phase, every rocket that is still in the store
  after the collision pass is one of the rockets the tick began with (in the same order),
  with the same target and speed, and its Euclidean distance to that target is at most what
  it was before the tick.  The only other rocket the store can hold after the tick is the
  one \<^verbatim>\<open>spawnRocket\<close> appended, at \<open>y = 0\<close>.  Speeds are taken in the range
  \<^verbatim>\<open>spawnRocket\<close> draws them from.
\<close>

theorem rocket_distance_non_increasing:
  assumes "gameState s = Playing" and "\<forall>r\<in>set (rockets s). speedOk r"
    and "update rnd s = Inr s'"
  shows "\<exists>survivors before.
           (rockets s' = survivors \<or> (\<exists>fresh. rockets s' = survivors @ [fresh] \<and> y fresh = 0)) \<and>
           subseq before (rockets s) \<and> list_all2 tracks survivors before"
proof -
  let ?s3 = "updateExplosions (updateMissiles (updateRockets s))"
  from assms(1,3) obtain s4 where
    s4: "spawnStep rnd (score s) ?s3 = Inr s4"
    and s': "setAmmo (lossCheck (winCheck (score s) s4)) = Inr s'"
    by (rule update_playing_cases)
  have "rockets s' = rockets s4"
    using s' by (simp add: setAmmo_frame)
  then have 1: "rockets s' = rockets ?s3 \<or> (\<exists>fresh. rockets s' = rockets ?s3 @ [fresh] \<and> y fresh = 0)"
    using spawnStep_rockets[OF s4] by simp
  have "sameRockets (rockets s) ?s3"
    by (intro sameRockets_updateExplosions sameRockets_updateMissiles sameRockets_updateRockets assms(2))
  then obtain before where "subseq before (rockets s)" "list_all2 tracks (rockets ?s3) before"
    unfolding sameRockets_def by blast
  with 1 show ?thesis by blast
qed

theorem rocket_distance_non_increasing_witness:
  "gameState oneRocket = Playing \<and> speedOk fallingRocket \<and>
   rockets oneRocket = [fallingRocket] \<and>
   update quietRolls oneRocket = Inr (oneRocket\<lparr>rockets := [fallingRocket\<lparr>y := 100.5\<rparr>]\<rparr>) \<and>
   (\<exists>survivors before.
      (rockets (oneRocket\<lparr>rockets := [fallingRocket\<lparr>y := 100.5\<rparr>]\<rparr>) = survivors \<or>
       (\<exists>fresh. rockets (oneRocket\<lparr>rockets := [fallingRocket\<lparr>y := 100.5\<rparr>]\<rparr>) =
          survivors @ [fresh] \<and> y fresh = 0)) \<and>
      subseq before (rockets oneRocket) \<and> list_all2 tracks survivors before)"
proof -
  have p: "gameState oneRocket = Playing" and r: "rockets oneRocket = [fallingRocket]"
    by (simp_all add: oneRocket_def startGame_def)
  have ok: "\<forall>r\<in>set (rockets oneRocket). speedOk r"
    by (simp add: r speedOk_def fallingRocket_def constants)
  from rocket_distance_non_increasing [OF p ok oneRocket_update] p r ok oneRocket_update
  show ?thesis by simp
qed

section \<open>No division by zero in the motion update\<close>

text \<open>
  Claim C9.  The motion update divides by the distance only on the branch that moves the
  entity, and there the distance is at least 2 for a rocket and at least 7 for a missile,
  hence not zero.  A rocket closer than 2 to its target, and a missile closer than 7 to its
  destination, is resolved as arrived before any direction is computed; a distance of zero
  is such a case.
\<close>

theorem motion_guards_division:
  "(rocketMotion r = Moved r' \<longrightarrow>
      2 \<le> rocketDistance r \<and> rocketDistance r \<noteq> 0 \<and>
      x r' = x r + ((targetX r - x r) / rocketDistance r) * speed r \<and>
      y r' = y r + ((targetY r - y r) / rocketDistance r) * speed r) \<and>
   (rocketDistance r0 < 2 \<longrightarrow> rocketMotion r0 = Arrived) \<and>
   (missileMotion m = Moved m' \<longrightarrow>
      MISSILE_SPEED \<le> missileDistance m \<and> missileDistance m \<noteq> 0 \<and>
      x m' = x m + ((destX m - x m) / missileDistance m) * MISSILE_SPEED \<and>
      y m' = y m + ((destY m - y m) / missileDistance m) * MISSILE_SPEED) \<and>
   (missileDistance m0 < MISSILE_SPEED \<longrightarrow> missileMotion m0 = Arrived)"
proof (intro conjI impI)
  assume mv: "rocketMotion r = Moved r'"
  show "2 \<le> rocketDistance r" using mv by (rule rocketMotion_Moved)
  then show "rocketDistance r \<noteq> 0" by simp
  show "x r' = x r + ((targetX r - x r) / rocketDistance r) * speed r"
    using mv by (rule rocketMotion_Moved)
  show "y r' = y r + ((targetY r - y r) / rocketDistance r) * speed r"
    using mv by (rule rocketMotion_Moved)
next
  assume "rocketDistance r0 < 2"
  then show "rocketMotion r0 = Arrived"
    by (simp add: rocketMotion_def rocketDistance_def Let_def)
next
  assume mv: "missileMotion m = Moved m'"
  show "MISSILE_SPEED \<le> missileDistance m" using mv by (rule missileMotion_Moved)
  then show "missileDistance m \<noteq> 0" by (simp add: MISSILE_SPEED_def)
  show "x m' = x m + ((destX m - x m) / missileDistance m) * MISSILE_SPEED"
    using mv by (rule missileMotion_Moved)
  show "y m' = y m + ((destY m - y m) / missileDistance m) * MISSILE_SPEED"
    using mv by (rule missileMotion_Moved)
next
  assume "missileDistance m0 < MISSILE_SPEED"
  then show "missileMotion m0 = Arrived"
    by (simp add: missileMotion_def missileDistance_def Let_def)
qed

theorem motion_guards_division_witness:
  "rocketMotion fallingRocket = Moved (fallingRocket\<lparr>y := 100.5\<rparr>) \<and>
   rocketDistance fallingRocket = 480 \<and>
   rocketDistance landedRocket = 0 \<and> rocketMotion landedRocket = Arrived \<and>
   missileMotion climbingMissile = Moved (climbingMissile\<lparr>y := 573\<rparr>) \<and>
   missileDistance climbingMissile = 280 \<and>
   missileDistance arrivedMissile = 0 \<and> missileMotion arrivedMissile = Arrived"
proof -
  have d: "rocketDistance fallingRocket = 480" "rocketDistance landedRocket = 0"
    by (simp_all add: rocketDistance_def fallingRocket_def landedRocket_def)
  have e: "missileDistance climbingMissile = 280" "missileDistance arrivedMissile = 0"
    by (simp_all add: missileDistance_def climbingMissile_def arrivedMissile_def)
  from motion_guards_division [of fallingRocket "fallingRocket\<lparr>y := 100.5\<rparr>" landedRocket
      climbingMissile "climbingMissile\<lparr>y := 573\<rparr>" arrivedMissile]
    fallingRocket_motion climbingMissile_motion d e
  show ?thesis by (simp add: constants)
qed

section \<open>The fire command\<close>

lemma nearestBattery_snoc:
  "nearestBattery tx (bs @ [b]) = nearestBatteryStep tx (nearestBattery tx bs) (length bs, b)"
  by (simp add: nearestBattery_def enumerate_append_eq)

lemma nearestBatteryStep_skip:
  "\<not> canFire b \<Longrightarrow> nearestBatteryStep tx acc (i, b) = acc"
  by (auto simp: nearestBatteryStep_def canFire_def Let_def)

lemma nearestBatteryStep_first:
  "canFire b \<Longrightarrow> nearestBatteryStep tx None (i, b) = Some (\<bar>x b - tx\<bar>, i)"
  by (auto simp: nearestBatteryStep_def canFire_def Let_def)

lemma nearestBatteryStep_next:
  "canFire b \<Longrightarrow> nearestBatteryStep tx (Some (d0, i0)) (i, b) =
     (if \<bar>x b - tx\<bar> < d0 then Some (\<bar>x b - tx\<bar>, i) else Some (d0, i0))"
  by (auto simp: nearestBatteryStep_def canFire_def Let_def)

lemma chosen_keep:
  assumes "chosen tx bs i" and "canFire b \<longrightarrow> \<bar>x (bs ! i) - tx\<bar> \<le> \<bar>x b - tx\<bar>"
  shows "chosen tx (bs @ [b]) i"
  using assms unfolding chosen_def
  by (auto simp: nth_append less_Suc_eq)

lemma chosen_new:
  assumes "canFire b"
    and "\<forall>j<length bs. canFire (bs ! j) \<longrightarrow> \<bar>x b - tx\<bar> < \<bar>x (bs ! j) - tx\<bar>"
  shows "chosen tx (bs @ [b]) (length bs)"
  using assms unfolding chosen_def
  by (auto simp: nth_append less_Suc_eq)

lemma nearestBattery_None:
  "nearestBattery tx bs = None \<longleftrightarrow> (\<forall>j<length bs. \<not> canFire (bs ! j))"
proof (induction bs rule: rev_induct)
  case Nil
  show ?case by (simp add: nearestBattery_def)
next
  case (snoc b bs)
  show ?case
  proof (cases "canFire b")
    case True
    then have "nearestBattery tx (bs @ [b]) \<noteq> None"
      by (cases "nearestBattery tx bs")
         (auto simp: nearestBattery_snoc nearestBatteryStep_first nearestBatteryStep_next)
    moreover have "\<not> (\<forall>j<length (bs @ [b]). \<not> canFire ((bs @ [b]) ! j))"
      using True by (auto intro: exI[of _ "length bs"])
    ultimately show ?thesis by blast
  next
    case False
    then have "nearestBattery tx (bs @ [b]) = nearestBattery tx bs"
      by (simp add: nearestBattery_snoc nearestBatteryStep_skip)
    then show ?thesis
      using snoc.IH False by (auto simp: nth_append less_Suc_eq)
  qed
qed

lemma nearestBattery_Some:
  "nearestBattery tx bs = Some (d, i) \<Longrightarrow> chosen tx bs i \<and> d = \<bar>x (bs ! i) - tx\<bar>"
proof (induction bs arbitrary: d i rule: rev_induct)
  case Nil
  then show ?case by (simp add: nearestBattery_def)
next
  case (snoc b bs)
  show ?case
  proof (cases "canFire b")
    case False
    then have "nearestBattery tx (bs @ [b]) = nearestBattery tx bs"
      by (simp add: nearestBattery_snoc nearestBatteryStep_skip)
    with snoc.prems have old: "nearestBattery tx bs = Some (d, i)" by simp
    then have c: "chosen tx bs i" and d: "d = \<bar>x (bs ! i) - tx\<bar>"
      using snoc.IH by blast+
    from c have "i < length bs" by (simp add: chosen_def)
    then have "(bs @ [b]) ! i = bs ! i" by (simp add: nth_append)
    moreover have "chosen tx (bs @ [b]) i"
      using c False by (intro chosen_keep) simp_all
    ultimately show ?thesis using d by simp
  next
    case True
    show ?thesis
    proof (cases "nearestBattery tx bs")
      case None
      then have "nearestBattery tx (bs @ [b]) = Some (\<bar>x b - tx\<bar>, length bs)"
        using True by (simp add: nearestBattery_snoc nearestBatteryStep_first)
      with snoc.prems have di: "d = \<bar>x b - tx\<bar>" "i = length bs" by simp_all
      have "\<forall>j<length bs. \<not> canFire (bs ! j)"
        using None by (simp add: nearestBattery_None)
      then have "chosen tx (bs @ [b]) (length bs)"
        using True by (intro chosen_new) simp_all
      then show ?thesis using di by simp
    next
      case (Some p)
      obtain d0 i0 where p: "p = (d0, i0)" by (cases p)
      with Some have old: "nearestBattery tx bs = Some (d0, i0)" by simp
      then have c: "chosen tx bs i0" and d0: "d0 = \<bar>x (bs ! i0) - tx\<bar>"
        using snoc.IH by blast+
      from c have i0: "i0 < length bs" by (simp add: chosen_def)
      show ?thesis
      proof (cases "\<bar>x b - tx\<bar> < d0")
        case closer: True
        then have "nearestBattery tx (bs @ [b]) = Some (\<bar>x b - tx\<bar>, length bs)"
          using True old by (simp add: nearestBattery_snoc nearestBatteryStep_next)
        with snoc.prems have di: "d = \<bar>x b - tx\<bar>" "i = length bs" by simp_all
        have "\<forall>j<length bs. canFire (bs ! j) \<longrightarrow> \<bar>x b - tx\<bar> < \<bar>x (bs ! j) - tx\<bar>"
          using c closer d0 unfolding chosen_def by fastforce
        with True have "chosen tx (bs @ [b]) (length bs)" by (rule chosen_new)
        then show ?thesis using di by simp
      next
        case False
        then have "nearestBattery tx (bs @ [b]) = Some (d0, i0)"
          using True old by (simp add: nearestBattery_snoc nearestBatteryStep_next)
        with snoc.prems have di: "d = d0" "i = i0" by simp_all
        have "chosen tx (bs @ [b]) i0"
          using c False d0 by (intro chosen_keep) simp_all
        moreover have "(bs @ [b]) ! i0 = bs ! i0" using i0 by (simp add: nth_append)
        ultimately show ?thesis using di d0 by simp
      qed
    qed
  qed
qed

lemma chosen_unique: "chosen tx bs i \<Longrightarrow> chosen tx bs j \<Longrightarrow> i = j"
  unfolding chosen_def
  by (metis linorder_neqE_nat not_less)

lemma centre_chosen: "chosen 400 (batteries (startGame initialGame)) 1"
  by (simp add: chosen_def canFire_def startGame_def initialBatteries_def constants
      less_Suc_eq numeral_3_eq_3 all_conj_distrib)

lemma ruined_cannot_fire: "list_all (\<lambda>b. \<not> canFire b) (batteries lastStand)"
  by (simp add: lastStand_def ruinedBatteries_def initialBatteries_def canFire_def)

text \<open>
  Claim C1, as the code has it.  \<^verbatim>\<open>handleCanvasClick\<close> returns at once unless the phase is
  \<^verbatim>\<open>'playing'\<close>.  In the playing phase, if at least one battery is not destroyed and has
  ammo, the click selects the one among them with the smallest horizontal distance to the
  click (the first in store order among equals), takes exactly 1 off its ammo and appends
  exactly one missile whose position and launch origin are the battery's position and whose
  destination is the click; if no battery qualifies, the state is unchanged.
\<close>

theorem handleCanvasClick_fires_nearest:
  "(gameState idle \<noteq> Playing \<longrightarrow> handleCanvasClick tx ty idle = idle) \<and>
   (gameState spent = Playing \<and> (\<forall>j<length (batteries spent). \<not> canFire (batteries spent ! j))
      \<longrightarrow> handleCanvasClick tx ty spent = spent) \<and>
   (gameState s = Playing \<and> (\<exists>j<length (batteries s). canFire (batteries s ! j))
      \<longrightarrow> (\<exists>i. chosen tx (batteries s) i \<and> handleCanvasClick tx ty s = launch tx ty i s))"
proof (intro conjI impI)
  assume "gameState idle \<noteq> Playing"
  then show "handleCanvasClick tx ty idle = idle"
    by (simp add: handleCanvasClick_def)
next
  assume "gameState spent = Playing \<and> (\<forall>j<length (batteries spent). \<not> canFire (batteries spent ! j))"
  then have "nearestBattery tx (batteries spent) = None"
    by (simp add: nearestBattery_None)
  then show "handleCanvasClick tx ty spent = spent"
    by (simp add: handleCanvasClick_def)
next
  assume a: "gameState s = Playing \<and> (\<exists>j<length (batteries s). canFire (batteries s ! j))"
  then have "nearestBattery tx (batteries s) \<noteq> None"
    by (simp add: nearestBattery_None)
  then obtain d i where n: "nearestBattery tx (batteries s) = Some (d, i)"
    by (cases "nearestBattery tx (batteries s)") auto
  then have "chosen tx (batteries s) i"
    by (simp add: nearestBattery_Some)
  moreover have "handleCanvasClick tx ty s = launch tx ty i s"
    using a n by (simp add: handleCanvasClick_def launch_def Let_def)
  ultimately show "\<exists>i. chosen tx (batteries s) i \<and> handleCanvasClick tx ty s = launch tx ty i s"
    by blast
qed

theorem handleCanvasClick_fires_nearest_witness:
  "gameState initialGame \<noteq> Playing \<and> handleCanvasClick 400 300 initialGame = initialGame \<and>
   gameState lastStand = Playing \<and> list_all (\<lambda>b. \<not> canFire b) (batteries lastStand) \<and>
   handleCanvasClick 400 300 lastStand = lastStand \<and>
   gameState (startGame initialGame) = Playing \<and>
   chosen 400 (batteries (startGame initialGame)) 1 \<and>
   handleCanvasClick 400 300 (startGame initialGame) = launch 400 300 1 (startGame initialGame) \<and>
   map ammo (batteries (launch 400 300 1 (startGame initialGame))) = [20, 39, 20] \<and>
   missiles (launch 400 300 1 (startGame initialGame)) =
     [\<lparr>x = 400, y = 580, destX = 400, destY = 300, startX = 400, startY = 580\<rparr>]"
proof -
  have 1: "gameState initialGame \<noteq> Playing"
    by (simp add: initialGame_def)
  have 2: "gameState lastStand = Playing"
    by (simp add: lastStand_def startGame_def)
  have 3: "\<forall>j<length (batteries lastStand). \<not> canFire (batteries lastStand ! j)"
    using ruined_cannot_fire by (simp add: list_all_length)
  have 4: "gameState (startGame initialGame) = Playing"
    by (simp add: startGame_def)
  have 5: "\<exists>j<length (batteries (startGame initialGame)). canFire (batteries (startGame initialGame) ! j)"
    using centre_chosen unfolding chosen_def by blast
  from handleCanvasClick_fires_nearest
    [of initialGame 400 300 lastStand "startGame initialGame"] 1 2 3 4 5
  obtain i where a: "handleCanvasClick 400 300 initialGame = initialGame"
    and b: "handleCanvasClick 400 300 lastStand = lastStand"
    and c: "chosen 400 (batteries (startGame initialGame)) i"
    and d: "handleCanvasClick 400 300 (startGame initialGame) = launch 400 300 i (startGame initialGame)"
    by blast
  from c centre_chosen have i: "i = 1" by (rule chosen_unique)
  have e: "map ammo (batteries (launch 400 300 1 (startGame initialGame))) = [20, 39, 20]"
    "missiles (launch 400 300 1 (startGame initialGame)) =
     [\<lparr>x = 400, y = 580, destX = 400, destY = 300, startX = 400, startY = 580\<rparr>]"
    by (simp_all add: launch_def startGame_def initialGame_def initialBatteries_def constants)
  from 1 2 4 a b d i e centre_chosen ruined_cannot_fire show ?thesis by simp
qed

text \<open>
  The claim as written fails outside the playing phase: in the menu the centre battery
  qualifies, and a click right above it changes nothing.
\<close>

theorem click_outside_round_fires_nothing:
  "gameState initialGame = Menu \<and> canFire (batteries initialGame ! 1) \<and>
   x (batteries initialGame ! 1) = 400 \<and>
   handleCanvasClick 400 300 initialGame = initialGame \<and>
   missiles (handleCanvasClick 400 300 initialGame) = [] \<and>
   ammo (batteries (handleCanvasClick 400 300 initialGame) ! 1) = 40"
  by (simp add: handleCanvasClick_def initialGame_def initialBatteries_def canFire_def constants)

section \<open>Explosion radii\<close>

lemma click_armed: "handleCanvasClick 400 580 (startGame initialGame) = armed"
  by (simp add: handleCanvasClick_def nearestBattery_def nearestBatteryStep_def startGame_def
      initialGame_def initialBatteries_def armed_def arrivedMissile_def constants)

lemma arrivedMissile_motion: "missileMotion arrivedMissile = Arrived"
  by (simp add: missileMotion_def arrivedMissile_def constants)

lemma armed_update: "update quietRolls armed = Inr (detonation 3.5 True)"
  by (simp add: run_defs missileBody_def reaim_def nearestRocket_def missileMotion_def Let_def
      explosionBody_def explosionLifecycle_def splice1_def
      armed_def detonation_def startGame_def initialGame_def quietRolls_def
      initialBatteries_def constants arrivedMissile_def)

lemma detonation_grow:
  assumes "r + 1.5 < 40"
  shows "update quietRolls (detonation r True) = Inr (detonation (r + 1.5) True)"
  using assms
  by (simp add: run_defs explosionBody_def explosionLifecycle_def
      detonation_def startGame_def initialGame_def quietRolls_def
      initialBatteries_def constants)

lemma detonation_flip:
  assumes "40 \<le> r + 1.5"
  shows "update quietRolls (detonation r True) = Inr (detonation (r + 1.5) False)"
  using assms
  by (simp add: run_defs explosionBody_def explosionLifecycle_def
      detonation_def startGame_def initialGame_def quietRolls_def
      initialBatteries_def constants)

lemma reachable_armed: "reachable armed"
  using reachable.clicked[OF reachable.started[OF reachable.mounted], of 400 580]
  by (simp add: click_armed)

lemma reachable_growing:
  "k \<le> 24 \<Longrightarrow> reachable (detonation (3.5 + 1.5 * real k) True)"
proof (induction k)
  case 0
  show ?case
    using reachable.ticked[OF reachable_armed validRolls_quiet armed_update] by simp
next
  case (Suc k)
  then have r: "reachable (detonation (3.5 + 1.5 * real k) True)" by simp
  from Suc.prems have "k \<le> 23" by simp
  then have "real k \<le> 23" by simp
  then have "(3.5 + 1.5 * real k) + 1.5 < 40" by simp
  then have "update quietRolls (detonation (3.5 + 1.5 * real k) True) =
      Inr (detonation ((3.5 + 1.5 * real k) + 1.5) True)"
    by (rule detonation_grow)
  with r validRolls_quiet have "reachable (detonation ((3.5 + 1.5 * real k) + 1.5) True)"
    by (rule reachable.ticked)
  moreover have "(3.5 + 1.5 * real k) + 1.5 = 3.5 + 1.5 * real (Suc k)"
    by (simp add: field_simps)
  ultimately show ?case by simp
qed

lemma reachable_peak: "reachable (detonation 41 False)"
proof -
  have "reachable (detonation (3.5 + 1.5 * real (24::nat)) True)"
    by (rule reachable_growing) simp
  then have r: "reachable (detonation 39.5 True)" by simp
  have "update quietRolls (detonation 39.5 True) = Inr (detonation (39.5 + 1.5) False)"
    by (rule detonation_flip) simp
  with r validRolls_quiet have "reachable (detonation (39.5 + 1.5) False)"
    by (rule reachable.ticked)
  then show ?thesis by simp
qed

text \<open>
  Claim C2, as the code has it.  In every reachable state every explosion in the store
  has a radius above 0 and at most 41, not 40.  While it grows the radius is \<open>2 + 1.5 k\<close>
  with \<open>k \<le> 25\<close>, hence below 40; a growth step adds 1.5 and turns the explosion to
  shrinking when the new radius is at least 40, without clamping it, which from 2 happens
  at 41.  While it shrinks the radius is \<open>41 - 1.5 k\<close>; a step takes 1.5 off and removes the
  explosion when the new radius is 0 or less.
\<close>

theorem explosion_radius_invariant:
  assumes "reachable s" and "e \<in> set (explosions s)"
  shows "0 < radius e \<and> radius e \<le> 41 \<and> explosionOk e \<and>
    (growing e \<longrightarrow> radius e < EXPLOSION_RADIUS_MAX) \<and>
    explosionLifecycle e =
      (if growing e
       then (e\<lparr>radius := radius e + 1.5, growing := radius e + 1.5 < 40\<rparr>, False)
       else (e\<lparr>radius := radius e - 1.5\<rparr>, radius e - 1.5 \<le> 0))"
proof -
  have "list_all explosionOk (explosions s)"
    using assms(1) by (rule reachable_explosionsOk)
  then have ok: "explosionOk e"
    using assms(2) by (simp add: list_all_iff)
  have "explosionLifecycle e =
      (if growing e
       then (e\<lparr>radius := radius e + 1.5, growing := radius e + 1.5 < 40\<rparr>, False)
       else (e\<lparr>radius := radius e - 1.5\<rparr>, radius e - 1.5 \<le> 0))"
    by (simp add: explosionLifecycle_def Let_def constants not_le)
  with ok explosionOk_bounds[OF ok] show ?thesis by simp
qed

theorem explosion_radius_invariant_witness:
  "reachable (detonation 3.5 True) \<and>
   \<lparr>x = 400, y = 580, radius = 3.5, growing = True\<rparr> \<in> set (explosions (detonation 3.5 True)) \<and>
   radius \<lparr>x = 400, y = 580, radius = 3.5, growing = True\<rparr> < EXPLOSION_RADIUS_MAX \<and>
   explosionOk \<lparr>x = 400, y = 580, radius = 3.5, growing = True\<rparr> \<and>
   explosionLifecycle \<lparr>x = 400, y = 580, radius = 3.5, growing = True\<rparr> =
     (\<lparr>x = 400, y = 580, radius = 5, growing = True\<rparr>, False)"
proof -
  have r: "reachable (detonation 3.5 True)"
    using reachable.ticked[OF reachable_armed validRolls_quiet armed_update] .
  have m: "\<lparr>x = 400, y = 580, radius = 3.5, growing = True\<rparr> \<in> set (explosions (detonation 3.5 True))"
    by (simp add: detonation_def)
  from explosion_radius_invariant [OF r m] r m show ?thesis by simp
qed

text \<open>
  The claim as written fails: 26 frames after the centre battery fires at its own position,
  the explosion stands at radius 41, above \<^verbatim>\<open>EXPLOSION_RADIUS_MAX\<close>; the step from 39.5 is
  not clamped.
\<close>

theorem explosion_radius_exceeds_max:
  "reachable (detonation 41 False) \<and>
   explosions (detonation 41 False) = [\<lparr>x = 400, y = 580, radius = 41, growing = False\<rparr>] \<and>
   EXPLOSION_RADIUS_MAX < radius \<lparr>x = 400, y = 580, radius = 41, growing = False\<rparr> \<and>
   explosionLifecycle \<lparr>x = 400, y = 580, radius = 39.5, growing = True\<rparr> =
     (\<lparr>x = 400, y = 580, radius = 41, growing = False\<rparr>, False)"
  using reachable_peak
  by (simp add: detonation_def explosionLifecycle_def constants)

section \<open>The win check\<close>

lemma collisionBody_tally:
  assumes "k < length (rockets t)"
  shows "score (collisionBody e k t) + SCORE_PER_ROCKET * int (length (rockets (collisionBody e k t)))
       = score t + SCORE_PER_ROCKET * int (length (rockets t))"
  using assms
  by (simp add: collisionBody_def Let_def length_splice1 of_nat_diff algebra_simps)

lemma explosionBody_tally:
  "score (explosionBody k t) + SCORE_PER_ROCKET * int (length (rockets (explosionBody k t)))
     = score t + SCORE_PER_ROCKET * int (length (rockets t))"
proof -
  obtain e removed where lc: "explosionLifecycle (explosions t ! k) = (e, removed)"
    by (cases "explosionLifecycle (explosions t ! k)")
  let ?t1 = "t\<lparr>explosions := (if removed then splice1 k (explosions t) else (explosions t)[k := e])\<rparr>"
  let ?tally = "\<lambda>u. score u + SCORE_PER_ROCKET * int (length (rockets u))"
  have "?tally (forEach (\<lambda>s. length (rockets s)) (collisionBody e) ?t1) = ?tally t"
    by (rule forEach_invariant[where P="\<lambda>u. ?tally u = ?tally t"])
       (simp_all add: collisionBody_tally)
  then show ?thesis
    by (simp add: explosionBody_def lc)
qed

lemma updateExplosions_tally:
  "score (updateExplosions t) + SCORE_PER_ROCKET * int (length (rockets (updateExplosions t)))
     = score t + SCORE_PER_ROCKET * int (length (rockets t))"
  unfolding updateExplosions_def
  by (rule forEach_invariant[where
        P="\<lambda>u. score u + SCORE_PER_ROCKET * int (length (rockets u))
               = score t + SCORE_PER_ROCKET * int (length (rockets t))"])
     (simp_all add: explosionBody_tally)

lemma updateRockets_score: "score (updateRockets s) = score s"
  unfolding updateRockets_def
  by (rule forEach_invariant[where P="\<lambda>t. score t = score s"]) (simp_all add: rocketBody_frame)

lemma updateMissiles_score: "score (updateMissiles s) = score s"
  unfolding updateMissiles_def
  by (rule forEach_invariant[where P="\<lambda>t. score t = score s"]) (simp_all add: missileBody_frame)

text \<open>The run from a fresh round to fifty kills; every state on it is reachable.\<close>

lemma click_launched: "handleCanvasClick 400 0 (startGame initialGame) = launched"
  by (simp add: handleCanvasClick_def nearestBattery_def nearestBatteryStep_def startGame_def
      initialGame_def initialBatteries_def launched_def constants)

lemma launched_update: "update quietRolls launched = Inr (flight 573)"
  by (simp add: run_defs missileBody_def reaim_def nearestRocket_def missileMotion_def Let_def
      launched_def flight_def startGame_def initialGame_def quietRolls_def
      initialBatteries_def constants)

lemma flight_step:
  assumes "7 \<le> h"
  shows "update quietRolls (flight h) = Inr (flight (h - 7))"
  using assms
  by (simp add: run_defs missileBody_def reaim_def nearestRocket_def missileMotion_def Let_def
      flight_def startGame_def initialGame_def quietRolls_def
      initialBatteries_def constants)

lemma flight_detonates: "update barrageRolls (flight 6) = Inr (barrage 0 3.5 True)"
  by (simp add: run_defs missileBody_def reaim_def nearestRocket_def missileMotion_def Let_def
      explosionBody_def explosionLifecycle_def splice1_def spawnRocket_def point.defs
      flight_def barrage_def newcomer_def startGame_def initialGame_def barrageRolls_def
      initialBatteries_def initialCities_def constants)

lemmas barrage_run = run_defs rocketBody_def rocketMotion_def Let_def
      explosionBody_def explosionLifecycle_def collisionBody_def splice1_def sqrt_quarter
      spawnRocket_def point.defs
      barrage_def newcomer_def startGame_def initialGame_def barrageRolls_def
      initialBatteries_def initialCities_def constants

lemma barrage_grow:
  assumes "0 \<le> sc" and "sc < 1000" and "0 \<le> r" and "r + 1.5 < 40"
  shows "update barrageRolls (barrage sc r True) = Inr (barrage (sc + 20) (r + 1.5) True)"
  using assms by (simp add: barrage_run)

lemma barrage_flip:
  assumes "0 \<le> sc" and "sc < 1000" and "40 \<le> r + 1.5"
  shows "update barrageRolls (barrage sc r True) = Inr (barrage (sc + 20) (r + 1.5) False)"
  using assms by (simp add: barrage_run)

lemma barrage_shrink:
  assumes "0 \<le> sc" and "sc < 1000" and "2 < r"
  shows "update barrageRolls (barrage sc r False) = Inr (barrage (sc + 20) (r - 1.5) False)"
  using assms by (simp add: barrage_run)

lemma reachable_launched: "reachable launched"
  using reachable.clicked[OF reachable.started[OF reachable.mounted], of 400 0]
  by (simp add: click_launched)

lemma reachable_flight:
  "k \<le> 81 \<Longrightarrow> reachable (flight (573 - 7 * real k))"
proof (induction k)
  case 0
  show ?case
    using reachable.ticked[OF reachable_launched validRolls_quiet launched_update] by simp
next
  case (Suc k)
  then have r: "reachable (flight (573 - 7 * real k))" by simp
  from Suc.prems have "k \<le> 80" by simp
  then have "real k \<le> 80" by simp
  then have "7 \<le> 573 - 7 * real k" by simp
  then have "update quietRolls (flight (573 - 7 * real k)) = Inr (flight (573 - 7 * real k - 7))"
    by (rule flight_step)
  with r validRolls_quiet have step: "reachable (flight (573 - 7 * real k - 7))"
    by (rule reachable.ticked)
  have eq: "573 - 7 * real k - 7 = 573 - 7 * real (Suc k)"
    by (simp add: field_simps)
  from step show ?case unfolding eq .
qed

lemma reachable_barrage_growing:
  "k \<le> 24 \<Longrightarrow> reachable (barrage (20 * int k) (3.5 + 1.5 * real k) True)"
proof (induction k)
  case 0
  have "reachable (flight (573 - 7 * real (81::nat)))"
    by (rule reachable_flight) simp
  then have "reachable (flight 6)" by simp
  then have "reachable (barrage 0 3.5 True)"
    using validRolls_barrage flight_detonates by (rule reachable.ticked)
  then show ?case by simp
next
  case (Suc k)
  then have r: "reachable (barrage (20 * int k) (3.5 + 1.5 * real k) True)" by simp
  from Suc.prems have k: "k \<le> 23" by simp
  then have rk: "real k \<le> 23" by simp
  from k have 1: "0 \<le> 20 * int k" and 2: "20 * int k < 1000" by simp_all
  from rk have 3: "0 \<le> 3.5 + 1.5 * real k" and 4: "(3.5 + 1.5 * real k) + 1.5 < 40"
    by simp_all
  have "update barrageRolls (barrage (20 * int k) (3.5 + 1.5 * real k) True) =
      Inr (barrage (20 * int k + 20) ((3.5 + 1.5 * real k) + 1.5) True)"
    using 1 2 3 4 by (rule barrage_grow)
  with r validRolls_barrage
  have step: "reachable (barrage (20 * int k + 20) ((3.5 + 1.5 * real k) + 1.5) True)"
    by (rule reachable.ticked)
  have eq: "20 * int k + 20 = 20 * int (Suc k)"
    "(3.5 + 1.5 * real k) + 1.5 = 3.5 + 1.5 * real (Suc k)"
    by (simp_all add: field_simps)
  from step show ?case unfolding eq .
qed

lemma reachable_barrage_peak: "reachable (barrage 500 41 False)"
proof -
  have "reachable (barrage (20 * int (24::nat)) (3.5 + 1.5 * real (24::nat)) True)"
    by (rule reachable_barrage_growing) simp
  then have r: "reachable (barrage 480 39.5 True)" by simp
  have "update barrageRolls (barrage 480 39.5 True) = Inr (barrage (480 + 20) (39.5 + 1.5) False)"
    by (rule barrage_flip) simp_all
  with r validRolls_barrage have "reachable (barrage (480 + 20) (39.5 + 1.5) False)"
    by (rule reachable.ticked)
  then show ?thesis by simp
qed

lemma reachable_barrage_shrinking:
  "k \<le> 24 \<Longrightarrow> reachable (barrage (500 + 20 * int k) (41 - 1.5 * real k) False)"
proof (induction k)
  case 0
  show ?case using reachable_barrage_peak by simp
next
  case (Suc k)
  then have r: "reachable (barrage (500 + 20 * int k) (41 - 1.5 * real k) False)" by simp
  from Suc.prems have k: "k \<le> 23" by simp
  then have rk: "real k \<le> 23" by simp
  from k have 1: "0 \<le> 500 + 20 * int k" and 2: "500 + 20 * int k < 1000" by simp_all
  from rk have 3: "2 < 41 - 1.5 * real k" by simp
  have "update barrageRolls (barrage (500 + 20 * int k) (41 - 1.5 * real k) False) =
      Inr (barrage (500 + 20 * int k + 20) (41 - 1.5 * real k - 1.5) False)"
    using 1 2 3 by (rule barrage_shrink)
  with r validRolls_barrage
  have step: "reachable (barrage (500 + 20 * int k + 20) (41 - 1.5 * real k - 1.5) False)"
    by (rule reachable.ticked)
  have eq: "500 + 20 * int k + 20 = 500 + 20 * int (Suc k)"
    "41 - 1.5 * real k - 1.5 = 41 - 1.5 * real (Suc k)"
    by (simp_all add: field_simps)
  from step show ?case unfolding eq .
qed

lemma reachable_fortynine: "reachable (barrage 980 5 False)"
proof -
  have "reachable (barrage (500 + 20 * int (24::nat)) (41 - 1.5 * real (24::nat)) False)"
    by (rule reachable_barrage_shrinking) simp
  then show ?thesis by simp
qed

lemma fiftieth_kill: "update quietRolls (barrage 980 5 False) = Inr cleared"
  by (simp add: barrage_run cleared_def quietRolls_def)

lemma reachable_cleared: "reachable cleared"
  using reachable_fortynine validRolls_quiet fiftieth_kill by (rule reachable.ticked)

lemma cleared_update: "update quietRolls cleared = Inr triumph"
  by (simp add: barrage_run cleared_def triumph_def quietRolls_def)

text \<open>
  Claim C3, as the code has it.  The win check of a tick reads the score the tick began
  with: \<^verbatim>\<open>update\<close> closes over \<^verbatim>\<open>score\<close>, and \<^verbatim>\<open>setScore\<close> only queues the points of this
  tick's kills.  After a tick of the playing phase the phase is \<^verbatim>\<open>'won'\<close> exactly when
  that score was at least 1000 and not every battery is destroyed at the loss check.  Each
  rocket an explosion removes adds exactly 20 to the score, so 50 kills from 0 give 1000;
  the tick that processes the 50th kill began below 1000 and does not end in \<^verbatim>\<open>'won'\<close>.
\<close>

theorem won_iff_captured_score:
  assumes "gameState s = Playing" and "update rnd s = Inr s'"
  shows "(gameState s' = Won \<longleftrightarrow> WIN_SCORE \<le> score s \<and> \<not> list_all destroyed (batteries s')) \<and>
    score s' = score s + SCORE_PER_ROCKET *
      (int (length (rockets (updateMissiles (updateRockets s)))) -
       int (length (rockets (updateExplosions (updateMissiles (updateRockets s))))))"
proof -
  let ?s2 = "updateMissiles (updateRockets s)"
  from assms obtain s4 where
    s4: "spawnStep rnd (score s) (updateExplosions ?s2) = Inr s4"
    and s': "setAmmo (lossCheck (winCheck (score s) s4)) = Inr s'"
    and p: "gameState s4 = Playing"
    by (rule update_playing_cases)
  have g: "gameState s' = gameState (lossCheck (winCheck (score s) s4))"
    and b: "batteries s' = batteries (lossCheck (winCheck (score s) s4))"
    and sc: "score s' = score (lossCheck (winCheck (score s) s4))"
    using s' by (simp_all add: setAmmo_frame)
  have "batteries s' = batteries s4" using b by simp
  then have won: "gameState s' = Won \<longleftrightarrow> WIN_SCORE \<le> score s \<and> \<not> list_all destroyed (batteries s')"
    using g p by (simp add: lossCheck_def winCheck_def)
  have "score s' = score s4" using sc by simp
  also have "\<dots> = score (updateExplosions ?s2)" using s4 by (rule spawnStep_frame)
  finally have "score s' + SCORE_PER_ROCKET * int (length (rockets (updateExplosions ?s2)))
      = score ?s2 + SCORE_PER_ROCKET * int (length (rockets ?s2))"
    by (simp add: updateExplosions_tally)
  then have "score s' = score s + SCORE_PER_ROCKET *
      (int (length (rockets ?s2)) - int (length (rockets (updateExplosions ?s2))))"
    by (simp add: updateMissiles_score updateRockets_score algebra_simps)
  with won show ?thesis by simp
qed

theorem won_iff_captured_score_witness:
  "reachable cleared \<and> gameState cleared = Playing \<and> WIN_SCORE \<le> score cleared \<and>
   update quietRolls cleared = Inr triumph \<and> gameState triumph = Won \<and> score triumph = 1000"
proof -
  have p: "gameState cleared = Playing" and w: "WIN_SCORE \<le> score cleared"
    by (simp_all add: cleared_def barrage_def startGame_def constants)
  have sc: "score triumph = 1000"
    by (simp add: triumph_def barrage_def)
  have b: "\<not> list_all destroyed (batteries triumph)"
    by (simp add: triumph_def barrage_def initialBatteries_def)
  from won_iff_captured_score [OF p cleared_update] w b
  have g: "gameState triumph = Won" by simp
  show ?thesis by (intro conjI reachable_cleared p w cleared_update g sc)
qed

text \<open>
  The claim as written fails on a run from score 0: after 49 kills the round stands at 980;
  the tick that processes the 50th kill ends with score 1000 and the phase still
  \<^verbatim>\<open>'playing'\<close>.  The phase turns to \<^verbatim>\<open>'won'\<close> one tick later.
\<close>

theorem fiftieth_kill_not_won:
  "reachable (barrage 980 5 False) \<and> gameState (barrage 980 5 False) = Playing \<and>
   score (barrage 980 5 False) = 980 \<and> rockets (barrage 980 5 False) = [newcomer] \<and>
   update quietRolls (barrage 980 5 False) = Inr cleared \<and>
   rockets cleared = [] \<and> score cleared = 1000 \<and> WIN_SCORE \<le> score cleared \<and>
   gameState cleared = Playing \<and> gameState cleared \<noteq> Won"
  using reachable_fortynine fiftieth_kill
  by (simp add: cleared_def barrage_def startGame_def constants)

section \<open>Heat seeking\<close>

text \<open>
  What the scan does for a missile the pass visits: with no rocket closer than 300 the
  missile keeps its destination; otherwise the destination becomes the position of the
  nearest rocket, the first in store order among equally near ones.
\<close>

lemma nearestRocket_snoc:
  "nearestRocket m (rs @ [r]) = nearestRocketStep m (nearestRocket m rs) r"
  by (simp add: nearestRocket_def)

lemma nearestRocketStep_closer:
  "seekDistance m r < fst acc \<Longrightarrow> nearestRocketStep m acc r = (seekDistance m r, Some r)"
  by (simp add: nearestRocketStep_def seekDistance_def)

lemma nearestRocketStep_keep:
  "\<not> seekDistance m r < fst acc \<Longrightarrow> nearestRocketStep m acc r = acc"
  by (simp add: nearestRocketStep_def seekDistance_def)

lemma nearestInRange_keep:
  assumes "nearestInRange m rs i" and "seekDistance m (rs ! i) \<le> seekDistance m r"
  shows "nearestInRange m (rs @ [r]) i"
  using assms unfolding nearestInRange_def
  by (auto simp: nth_append less_Suc_eq)

lemma nearestInRange_new:
  assumes "seekDistance m r < 300"
    and "\<forall>j<length rs. seekDistance m r < seekDistance m (rs ! j)"
  shows "nearestInRange m (rs @ [r]) (length rs)"
  using assms unfolding nearestInRange_def
  by (auto simp: nth_append less_Suc_eq intro: less_imp_le)

lemma nearestRocket_None:
  "snd (nearestRocket m rs) = None \<Longrightarrow>
     fst (nearestRocket m rs) = 300 \<and> (\<forall>j<length rs. \<not> seekDistance m (rs ! j) < 300)"
proof (induction rs rule: rev_induct)
  case Nil
  show ?case by (simp add: nearestRocket_def)
next
  case (snoc r rs)
  have keep: "\<not> seekDistance m r < fst (nearestRocket m rs)"
  proof
    assume "seekDistance m r < fst (nearestRocket m rs)"
    then have "snd (nearestRocket m (rs @ [r])) = Some r"
      by (simp add: nearestRocket_snoc nearestRocketStep_closer)
    with snoc.prems show False by simp
  qed
  then have same: "nearestRocket m (rs @ [r]) = nearestRocket m rs"
    by (simp add: nearestRocket_snoc nearestRocketStep_keep)
  with snoc have "fst (nearestRocket m rs) = 300"
    and "\<forall>j<length rs. \<not> seekDistance m (rs ! j) < 300"
    by simp_all
  with keep same show ?case
    by (auto simp: nth_append less_Suc_eq)
qed

lemma nearestRocket_Some:
  "snd (nearestRocket m rs) = Some r \<Longrightarrow>
     \<exists>i. nearestInRange m rs i \<and> r = rs ! i \<and> fst (nearestRocket m rs) = seekDistance m r"
proof (induction rs arbitrary: r rule: rev_induct)
  case Nil
  then show ?case by (simp add: nearestRocket_def)
next
  case (snoc r' rs)
  show ?case
  proof (cases "seekDistance m r' < fst (nearestRocket m rs)")
    case False
    then have same: "nearestRocket m (rs @ [r']) = nearestRocket m rs"
      by (simp add: nearestRocket_snoc nearestRocketStep_keep)
    with snoc.prems have "snd (nearestRocket m rs) = Some r" by simp
    then obtain i where i: "nearestInRange m rs i" "r = rs ! i"
      "fst (nearestRocket m rs) = seekDistance m r"
      using snoc.IH by blast
    from i(1) have "i < length rs" by (simp add: nearestInRange_def)
    then have nth: "(rs @ [r']) ! i = rs ! i" by (simp add: nth_append)
    have "nearestInRange m (rs @ [r']) i"
      using i False by (intro nearestInRange_keep) simp_all
    with nth i same show ?thesis by auto
  next
    case True
    then have new: "nearestRocket m (rs @ [r']) = (seekDistance m r', Some r')"
      by (simp add: nearestRocket_snoc nearestRocketStep_closer)
    with snoc.prems have r: "r = r'" by simp
    have bound: "fst (nearestRocket m rs) \<le> 300 \<and>
        (\<forall>j<length rs. fst (nearestRocket m rs) \<le> seekDistance m (rs ! j))"
    proof (cases "snd (nearestRocket m rs)")
      case None
      then have "fst (nearestRocket m rs) = 300"
        and "\<forall>j<length rs. \<not> seekDistance m (rs ! j) < 300"
        using nearestRocket_None by blast+
      then show ?thesis by (simp add: not_less)
    next
      case (Some r0)
      then obtain i where "nearestInRange m rs i" "r0 = rs ! i"
        "fst (nearestRocket m rs) = seekDistance m r0"
        using snoc.IH by blast
      then show ?thesis by (simp add: nearestInRange_def)
    qed
    from True bound have near: "seekDistance m r' < 300" by simp
    from True bound have far: "\<forall>j<length rs. seekDistance m r' < seekDistance m (rs ! j)"
      by fastforce
    from near far have "nearestInRange m (rs @ [r']) (length rs)"
      by (rule nearestInRange_new)
    with new r show ?thesis by (auto intro!: exI[of _ "length rs"])
  qed
qed

lemma reaim_out_of_range:
  assumes "\<forall>j<length rs. \<not> seekDistance m (rs ! j) < 300"
  shows "reaim rs m = m"
proof (cases "snd (nearestRocket m rs)")
  case None
  then show ?thesis by (simp add: reaim_def)
next
  case (Some r)
  then obtain i where "nearestInRange m rs i"
    using nearestRocket_Some by blast
  with assms show ?thesis by (auto simp: nearestInRange_def)
qed

lemma reaim_in_range:
  assumes "\<exists>j<length rs. seekDistance m (rs ! j) < 300"
  shows "\<exists>i. nearestInRange m rs i \<and> reaim rs m = m\<lparr>destX := x (rs ! i), destY := y (rs ! i)\<rparr>"
proof (cases "snd (nearestRocket m rs)")
  case None
  then have "\<forall>j<length rs. \<not> seekDistance m (rs ! j) < 300"
    using nearestRocket_None by blast
  with assms show ?thesis by blast
next
  case (Some r)
  then obtain i where "nearestInRange m rs i" "r = rs ! i"
    using nearestRocket_Some by blast
  with Some show ?thesis by (auto simp: reaim_def)
qed

lemma missileBody_visits:
  assumes "k < length (missiles s)"
  shows "(missileMotion (reaim (rockets s) (missiles s ! k)) = Arrived \<longrightarrow>
            missiles (missileBody k s) = splice1 k (missiles s)) \<and>
         (\<forall>m'. missileMotion (reaim (rockets s) (missiles s ! k)) = Moved m' \<longrightarrow>
            missiles (missileBody k s) ! k = m' \<and>
            destX m' = destX (reaim (rockets s) (missiles s ! k)) \<and>
            destY m' = destY (reaim (rockets s) (missiles s ! k)))"
  using assms
  by (auto simp: missileBody_def Let_def missileMotion_def split: if_splits)

lemma spawn_descent: "update spawnRolls (startGame initialGame) = Inr (descent 0)"
  by (simp add: run_defs spawnRocket_def point.defs
      descent_def intruder_def spawnRolls_def
      startGame_def initialGame_def initialBatteries_def initialCities_def constants)

lemma descent_step:
  assumes "h < 570"
  shows "update quietRolls (descent h) = Inr (descent (h + 0.5))"
  using assms
  by (simp add: run_defs rocketBody_def rocketMotion_def Let_def
      descent_def intruder_def quietRolls_def
      startGame_def initialGame_def initialBatteries_def constants)

lemma reachable_descent: "reachable (descent (0.5 * real k))" if "k \<le> 600"
  using that
proof (induction k)
  case 0
  have "reachable (startGame initialGame)"
    by (intro reachable.started reachable.mounted)
  then have "reachable (descent 0)"
    using validRolls_spawn spawn_descent by (rule reachable.ticked)
  then show ?case by simp
next
  case (Suc k)
  then have r: "reachable (descent (0.5 * real k))" by simp
  from Suc.prems have "k \<le> 599" by simp
  then have "real k \<le> 599" by simp
  then have "0.5 * real k < 570" by simp
  then have "update quietRolls (descent (0.5 * real k)) = Inr (descent (0.5 * real k + 0.5))"
    by (rule descent_step)
  with r validRolls_quiet have step: "reachable (descent (0.5 * real k + 0.5))"
    by (rule reachable.ticked)
  have eq: "0.5 * real k + 0.5 = 0.5 * real (Suc k)"
    by (simp add: field_simps)
  from step show ?case unfolding eq .
qed

lemma clicks_volley:
  "handleCanvasClick 700 300 (handleCanvasClick 50 580 (descent 300)) = volley"
  by (simp add: handleCanvasClick_def nearestBattery_def nearestBatteryStep_def
      volley_def descent_def spentMissile_def seeker_def
      startGame_def initialGame_def initialBatteries_def constants)

lemma reachable_volley: "reachable volley"
proof -
  have "reachable (descent (0.5 * real (600::nat)))"
    by (rule reachable_descent) simp
  then have "reachable (descent 300)" by simp
  then have "reachable (handleCanvasClick 700 300 (handleCanvasClick 50 580 (descent 300)))"
    by (intro reachable.clicked)
  then show ?thesis by (simp only: clicks_volley)
qed

lemma volley_update: "update quietRolls volley = Inr volleyAfter"
  by (simp add: run_defs rocketBody_def rocketMotion_def Let_def
      missileBody_def reaim_def nearestRocket_def nearestRocketStep_def missileMotion_def
      explosionBody_def explosionLifecycle_def collisionBody_def splice1_def
      sqrt_less_numeral sqrt_times_less_numeral power2_eq_square
      volley_def volleyAfter_def descent_def intruder_def spentMissile_def seeker_def
      startGame_def initialGame_def quietRolls_def initialBatteries_def constants)

text \<open>
  Claim C6 says that on every tick every missile with a rocket closer than 300 has its
  destination overwritten with that rocket's position.  The pass over the missiles removes
  a detonating missile with \<^verbatim>\<open>splice\<close> while \<^verbatim>\<open>forEach\<close> is running, so the missile that
  follows it in the store is not visited on that tick.  Here the first missile detonates;
  the second has the rocket at distance 279.5, its re-aimed destination would be
  \<open>(750, 300.5)\<close>, and it leaves the tick with its old destination \<open>(700, 300)\<close>, unmoved.
  The state is reachable: a rocket spawned above the right battery, 600 frames, two clicks.
\<close>

theorem skipped_missile_not_reaimed:
  "reachable volley \<and> update quietRolls volley = Inr volleyAfter \<and>
   missiles volley = [spentMissile, seeker] \<and> missiles volleyAfter = [seeker] \<and>
   rockets volleyAfter = [intruder\<lparr>y := 300.5\<rparr>] \<and>
   seekDistance seeker (intruder\<lparr>y := 300.5\<rparr>) < 300 \<and>
   reaim (rockets volleyAfter) seeker = seeker\<lparr>destX := 750, destY := 300.5\<rparr> \<and>
   destX seeker = 700 \<and> destY seeker = 300"
  using volley_update reachable_volley
  by (simp add: volley_def volleyAfter_def descent_def seekDistance_def reaim_def
      nearestRocket_def nearestRocketStep_def sqrt_less_numeral power2_eq_square seeker_def
      intruder_def)

section \<open>Rocket impact\<close>

lemma map_none_hit:
  "filter hit bs = [] \<Longrightarrow> map (\<lambda>b. if hit b then mark b else b) bs = bs"
  by (induction bs) (auto split: if_splits)

lemma markFirst_none_hit: "filter hit bs = [] \<Longrightarrow> markFirst hit mark bs = bs"
  by (induction bs) (auto split: if_splits)

lemma map_one_hit:
  "length (filter hit bs) \<le> 1 \<Longrightarrow> map (\<lambda>b. if hit b then mark b else b) bs = markFirst hit mark bs"
proof (induction bs)
  case Nil
  show ?case by simp
next
  case (Cons b bs)
  show ?case
  proof (cases "hit b")
    case True
    with Cons.prems have "filter hit bs = []" by simp
    then show ?thesis using True by (simp add: map_none_hit)
  next
    case False
    with Cons show ?thesis by simp
  qed
qed

lemma newlyDestroyed_le:
  "newlyDestroyed bs (map (\<lambda>b. if hit b then mark b else b) bs) \<le> length (filter hit bs)"
  unfolding newlyDestroyed_def
  by (induction bs) auto

lemma hits_one_structure:
  assumes "layout s"
  shows "length (filter (wasHit r) (batteries s)) + length (filter (wasHit r) (cities s)) \<le> 1"
proof -
  from assms obtain b0 b1 b2 where bs: "batteries s = [b0, b1, b2]"
    and bx: "x b0 = 50" "x b1 = 400" "x b2 = 750"
    unfolding layout_def initialBatteries_def
    by (auto simp: map_eq_Cons_conv position_def constants)
  from assms obtain c0 c1 c2 c3 c4 c5 where cs: "cities s = [c0, c1, c2, c3, c4, c5]"
    and cx: "x c0 = 150" "x c1 = 250" "x c2 = 350" "x c3 = 450" "x c4 = 550" "x c5 = 650"
    unfolding layout_def initialCities_def
    by (auto simp: map_eq_Cons_conv position_def constants)
  consider "targetX r < 100" | "100 \<le> targetX r" "targetX r < 200"
    | "200 \<le> targetX r" "targetX r < 300" | "300 \<le> targetX r" "targetX r < 375"
    | "375 \<le> targetX r" "targetX r < 425" | "425 \<le> targetX r" "targetX r < 500"
    | "500 \<le> targetX r" "targetX r < 600" | "600 \<le> targetX r" "targetX r < 700"
    | "700 \<le> targetX r"
    by linarith
  then show ?thesis
    by cases (simp_all add: bs cs bx cx wasHit_def)
qed

lemma rocketBody_Arrived:
  assumes "rocketMotion (rockets s ! index) = Arrived"
  shows "rocketBody index s =
     s\<lparr>explosions := explosions s @
         [\<lparr>x = x (rockets s ! index), y = y (rockets s ! index), radius = 2, growing = True\<rparr>],
       batteries := map (\<lambda>b. if wasHit (rockets s ! index) b
                              then b\<lparr>destroyed := True, ammo := 0\<rparr> else b) (batteries s),
       cities := map (\<lambda>c. if wasHit (rockets s ! index) c then c\<lparr>destroyed := True\<rparr> else c)
                     (cities s),
       rockets := splice1 index (rockets s)\<rparr>"
  using assms by (simp add: rocketBody_def Let_def)

lemma impact_as_specified:
  assumes "length (filter (wasHit r) bs) + length (filter (wasHit r) cs) \<le> 1"
  shows "impactAsSpecified r (bs, cs) =
     (map (\<lambda>b. if wasHit r b then b\<lparr>destroyed := True, ammo := 0\<rparr> else b) bs,
      map (\<lambda>c. if wasHit r c then c\<lparr>destroyed := True\<rparr> else c) cs)"
proof (cases "list_ex (wasHit r) bs")
  case True
  then have "filter (wasHit r) bs \<noteq> []"
    by (simp add: list_ex_iff filter_empty_conv)
  then have pos: "0 < length (filter (wasHit r) bs)" by simp
  with assms have b: "length (filter (wasHit r) bs) \<le> 1" by linarith
  from pos assms have "length (filter (wasHit r) cs) = 0" by linarith
  then have c: "filter (wasHit r) cs = []" by simp
  show ?thesis
    using True by (simp add: impactAsSpecified_def map_one_hit[OF b] map_none_hit[OF c])
next
  case False
  then have b: "filter (wasHit r) bs = []"
    by (simp add: list_ex_iff filter_empty_conv)
  with assms have c: "length (filter (wasHit r) cs) \<le> 1" by simp
  show ?thesis
    using False by (simp add: impactAsSpecified_def map_one_hit[OF c] map_none_hit[OF b])
qed

text \<open>
  What the pass does for a rocket it visits, with the structures at their fixed positions:
  if the rocket is closer than 2 to its target, an explosion of radius 2 in the growing
  phase is appended at the rocket's position, the rocket is removed from the store, and
  marking every battery and city that matches the target comes to marking the first match
  only; at most one structure turns from standing to destroyed.
\<close>

lemma visited_rocket_impact:
  assumes "layout s" and "index < length (rockets s)"
    and "rocketDistance (rockets s ! index) < 2"
  shows "rocketBody index s =
      s\<lparr>explosions := explosions s @
          [\<lparr>x = x (rockets s ! index), y = y (rockets s ! index), radius = 2, growing = True\<rparr>],
        batteries := fst (impactAsSpecified (rockets s ! index) (batteries s, cities s)),
        cities := snd (impactAsSpecified (rockets s ! index) (batteries s, cities s)),
        rockets := splice1 index (rockets s)\<rparr> \<and>
    length (rockets (rocketBody index s)) = length (rockets s) - 1 \<and>
    newlyDestroyed (batteries s) (batteries (rocketBody index s)) +
      newlyDestroyed (cities s) (cities (rocketBody index s)) \<le> 1"
proof -
  let ?r = "rockets s ! index"
  have arrived: "rocketMotion ?r = Arrived"
    using assms(3) by (simp add: rocketMotion_def rocketDistance_def Let_def)
  have one: "length (filter (wasHit ?r) (batteries s)) + length (filter (wasHit ?r) (cities s)) \<le> 1"
    using assms(1) by (rule hits_one_structure)
  have body: "rocketBody index s =
      s\<lparr>explosions := explosions s @ [\<lparr>x = x ?r, y = y ?r, radius = 2, growing = True\<rparr>],
        batteries := fst (impactAsSpecified ?r (batteries s, cities s)),
        cities := snd (impactAsSpecified ?r (batteries s, cities s)),
        rockets := splice1 index (rockets s)\<rparr>"
    by (simp add: rocketBody_Arrived[OF arrived] impact_as_specified[OF one])
  have len: "length (rockets (rocketBody index s)) = length (rockets s) - 1"
    using assms(2) by (simp add: rocketBody_Arrived[OF arrived] length_splice1)
  have "newlyDestroyed (batteries s) (batteries (rocketBody index s))
      \<le> length (filter (wasHit ?r) (batteries s))"
    by (simp add: rocketBody_Arrived[OF arrived] newlyDestroyed_le)
  moreover have "newlyDestroyed (cities s) (cities (rocketBody index s))
      \<le> length (filter (wasHit ?r) (cities s))"
    by (simp add: rocketBody_Arrived[OF arrived] newlyDestroyed_le)
  ultimately have "newlyDestroyed (batteries s) (batteries (rocketBody index s)) +
      newlyDestroyed (cities s) (cities (rocketBody index s)) \<le> 1"
    using one by linarith
  with body len show ?thesis by simp
qed

text \<open>The run to the frame on which both rockets are due; every state on it is reachable.\<close>

lemmas duo_run = run_defs rocketBody_def rocketMotion_def Let_def wasHit_def
      explosionBody_def explosionLifecycle_def collisionBody_def splice1_def
      spawnRocket_def point.defs
      solo_def duo_def slow_def newcomer_def startGame_def initialGame_def
      initialBatteries_def initialCities_def constants

lemma spawn_solo: "update slowRolls (startGame initialGame) = Inr (solo 0)"
  by (simp add: duo_run slowRolls_def)

lemma solo_step:
  assumes "h \<le> 578"
  shows "update quietRolls (solo h) = Inr (solo (h + 0.25))"
  using assms by (simp add: duo_run quietRolls_def)

lemma spawn_duo:
  assumes "h \<le> 578"
  shows "update barrageRolls (solo h) = Inr (duo (h + 0.25) 0)"
  using assms by (simp add: duo_run barrageRolls_def)

lemma duo_step:
  assumes "ha \<le> 578" and "hb \<le> 578"
  shows "update quietRolls (duo ha hb) = Inr (duo (ha + 0.25) (hb + 0.5))"
  using assms by (simp add: duo_run quietRolls_def)

lemma twoLanded_update: "update quietRolls twoLanded = Inr oneLeftBehind"
  by (simp add: duo_run sqrt_less_numeral sqrt_times_less_numeral
      twoLanded_def oneLeftBehind_def quietRolls_def)

lemma reachable_solo: "k \<le> 1155 \<Longrightarrow> reachable (solo (0.25 * real k))"
proof (induction k)
  case 0
  have "reachable (startGame initialGame)"
    by (intro reachable.started reachable.mounted)
  then have "reachable (solo 0)"
    using validRolls_slow spawn_solo by (rule reachable.ticked)
  then show ?case by simp
next
  case (Suc k)
  then have r: "reachable (solo (0.25 * real k))" by simp
  from Suc.prems have "k \<le> 1154" by simp
  then have "real k \<le> 1154" by simp
  then have "0.25 * real k \<le> 578" by simp
  then have "update quietRolls (solo (0.25 * real k)) = Inr (solo (0.25 * real k + 0.25))"
    by (rule solo_step)
  with r validRolls_quiet have step: "reachable (solo (0.25 * real k + 0.25))"
    by (rule reachable.ticked)
  have eq: "0.25 * real k + 0.25 = 0.25 * real (Suc k)"
    by (simp add: field_simps)
  from step show ?case unfolding eq .
qed

lemma reachable_duo: "k \<le> 1157 \<Longrightarrow> reachable (duo (289 + 0.25 * real k) (0.5 * real k))"
proof (induction k)
  case 0
  have "reachable (solo (0.25 * real (1155::nat)))"
    by (rule reachable_solo) simp
  then have r: "reachable (solo 288.75)" by simp
  have "update barrageRolls (solo 288.75) = Inr (duo (288.75 + 0.25) 0)"
    by (rule spawn_duo) simp
  with r validRolls_barrage have "reachable (duo (288.75 + 0.25) 0)"
    by (rule reachable.ticked)
  then show ?case by simp
next
  case (Suc k)
  then have r: "reachable (duo (289 + 0.25 * real k) (0.5 * real k))" by simp
  from Suc.prems have "k \<le> 1156" by simp
  then have rk: "real k \<le> 1156" by simp
  then have 1: "289 + 0.25 * real k \<le> 578" and 2: "0.5 * real k \<le> 578" by simp_all
  have "update quietRolls (duo (289 + 0.25 * real k) (0.5 * real k)) =
      Inr (duo (289 + 0.25 * real k + 0.25) (0.5 * real k + 0.5))"
    using 1 2 by (rule duo_step)
  with r validRolls_quiet
  have step: "reachable (duo (289 + 0.25 * real k + 0.25) (0.5 * real k + 0.5))"
    by (rule reachable.ticked)
  have eq: "289 + 0.25 * real k + 0.25 = 289 + 0.25 * real (Suc k)"
    "0.5 * real k + 0.5 = 0.5 * real (Suc k)"
    by (simp_all add: field_simps)
  from step show ?case unfolding eq .
qed

lemma reachable_twoLanded: "reachable twoLanded"
proof -
  have "reachable (duo (289 + 0.25 * real (1157::nat)) (0.5 * real (1157::nat)))"
    by (rule reachable_duo) simp
  then show ?thesis by (simp add: twoLanded_def)
qed

text \<open>
  Claim C7 says that a rocket whose distance to its target has fallen below 2 is turned
  into an explosion, removed, and its structure marked destroyed.  The pass over the
  rockets removes an impacting rocket with \<^verbatim>\<open>splice\<close> while \<^verbatim>\<open>forEach\<close> is running, so the
  rocket that follows it in the store is not visited on that tick.  Here both rockets are
  closer than 2 to their targets.  The first is resolved: its explosion is in the store and
  the left battery is destroyed.  The second is still in the store after the tick, with no
  explosion of its own, and the centre battery it has reached still stands with its ammo.
\<close>

theorem skipped_rocket_not_resolved:
  "reachable twoLanded \<and> gameState twoLanded = Playing \<and>
   rockets twoLanded = [slow 578.25, newcomer\<lparr>y := 578.5\<rparr>] \<and>
   rocketDistance (slow 578.25) < 2 \<and> rocketDistance (newcomer\<lparr>y := 578.5\<rparr>) < 2 \<and>
   update quietRolls twoLanded = Inr oneLeftBehind \<and>
   rockets oneLeftBehind = [newcomer\<lparr>y := 578.5\<rparr>] \<and>
   explosions oneLeftBehind = [\<lparr>x = 50, y = 578.25, radius = 3.5, growing = True\<rparr>] \<and>
   wasHit (newcomer\<lparr>y := 578.5\<rparr>) (batteries oneLeftBehind ! 1) \<and>
   \<not> destroyed (batteries oneLeftBehind ! 1) \<and> ammo (batteries oneLeftBehind ! 1) = 40"
  using reachable_twoLanded twoLanded_update
  by (simp add: twoLanded_def duo_def oneLeftBehind_def rocketDistance_def slow_def
      newcomer_def wasHit_def sqrt_less_numeral startGame_def initialBatteries_def constants)

end
